theory Spec2Isabelle
  imports Main "HOL-Library.Sublist" "HOL-Library.Signed_Division"
begin

section \<open>JavaScript strings and numbers, as far as index.js uses them\<close>

text \<open>
  A JavaScript string is modelled as a \<^typ>\<open>string\<close>, one \<^typ>\<open>char\<close> per code unit.
  Only the ASCII letters have a lower-case form in this model; every other
  character is its own lower-case form.
\<close>

definition lowerChar :: "char \<Rightarrow> char" where
  "lowerChar c =
     (case map_of (zip ''ABCDEFGHIJKLMNOPQRSTUVWXYZ'' ''abcdefghijklmnopqrstuvwxyz'') c of
        Some l \<Rightarrow> l
      | None \<Rightarrow> c)"

definition toLowerCase :: "string \<Rightarrow> string" where
  "toLowerCase s = map lowerChar s"

text \<open>\<^verbatim>\<open>s.includes(w)\<close>: \<open>w\<close> occurs in \<open>s\<close> as a contiguous run of characters.\<close>

fun str_includes :: "string \<Rightarrow> string \<Rightarrow> bool" where
  "str_includes [] w = (w = [])"
| "str_includes (c # cs) w = (prefix w (c # cs) \<or> str_includes cs w)"

text \<open>
  \<^verbatim>\<open>String(n)\<close> for an integral number, as a template literal renders it: decimal
  digits, with a minus sign in front of a negative number.
\<close>

definition digitChar :: "nat \<Rightarrow> char" where
  "digitChar d = ''0123456789'' ! d"

function digits :: "nat \<Rightarrow> string" where
  "digits n = (if n < 10 then [digitChar n] else digits (n div 10) @ [digitChar (n mod 10)])"
  by pat_completeness auto
termination
  by (relation "measure (\<lambda>n. n)") auto

declare digits.simps [simp del]

definition numberToString :: "int \<Rightarrow> string" where
  "numberToString k = (if k < 0 then CHR ''-'' # digits (nat (- k)) else digits (nat k))"

text \<open>
  \<^verbatim>\<open>s.indexOf(pat)\<close>, with \<open>None\<close> for \<^verbatim>\<open>-1\<close>.
\<close>

fun indexOf :: "string \<Rightarrow> string \<Rightarrow> nat option" where
  "indexOf [] pat = (if pat = [] then Some 0 else None)"
| "indexOf (c # cs) pat =
     (if prefix pat (c # cs) then Some 0 else map_option Suc (indexOf cs pat))"

text \<open>
  The replacement text of \<^verbatim>\<open>String.prototype.replace\<close> when the pattern is a string:
  \<^verbatim>\<open>$$\<close> stands for a dollar sign, \<^verbatim>\<open>$&\<close> for the matched text, a dollar sign and a
  backtick for the text before the match, a dollar sign and an apostrophe for the text
  after it. There are no capture groups, so every other dollar sign stands for itself.
\<close>

fun getSubstitution :: "string \<Rightarrow> string \<Rightarrow> string \<Rightarrow> string \<Rightarrow> string" where
  "getSubstitution matched preceding following [] = []"
| "getSubstitution matched preceding following [c] = [c]"
| "getSubstitution matched preceding following (c # d # r) =
     (if c = CHR ''$'' then
        (if d = CHR ''$'' then CHR ''$'' # getSubstitution matched preceding following r
         else if d = CHR ''&'' then matched @ getSubstitution matched preceding following r
         else if d = CHR 0x60 then preceding @ getSubstitution matched preceding following r
         else if d = CHR 0x27 then following @ getSubstitution matched preceding following r
         else c # getSubstitution matched preceding following (d # r))
      else c # getSubstitution matched preceding following (d # r))"

text \<open>\<^verbatim>\<open>s.replace(pat, repl)\<close> with a string pattern: the first occurrence only.\<close>

definition replace_str :: "string \<Rightarrow> string \<Rightarrow> string \<Rightarrow> string" where
  "replace_str s pat repl =
     (case indexOf s pat of
        None \<Rightarrow> s
      | Some i \<Rightarrow>
          (let preceding = take i s; following = drop (i + length pat) s
           in preceding @ getSubstitution pat preceding following repl @ following))"

text \<open>\<^verbatim>\<open>s.split(" ")\<close> and \<^verbatim>\<open>parts.join(" ")\<close>.\<close>

fun split_sp :: "string \<Rightarrow> string list" where
  "split_sp [] = [[]]"
| "split_sp (c # cs) =
     (if c = CHR '' '' then [] # split_sp cs
      else (case split_sp cs of [] \<Rightarrow> [[c]] | p # ps \<Rightarrow> (c # p) # ps))"

fun join_sp :: "string list \<Rightarrow> string" where
  "join_sp [] = []"
| "join_sp [p] = p"
| "join_sp (p # q # ps) = p @ '' '' @ join_sp (q # ps)"

section \<open>formatUptime\<close>

text \<open>
  \<^verbatim>\<open>
  function formatUptime(startTime) {
    const diff = Date.now() - startTime;
    const secs = Math.floor(diff / 1000) % 60;
    const mins = Math.floor(diff / 60000) % 60;
    const hours = Math.floor(diff / 3600000);
    return `${hours}h ${mins}m ${secs}s`;
  }
  \<close>
  The clock reading \<^verbatim>\<open>Date.now()\<close> is the first argument. \<^verbatim>\<open>Math.floor\<close> of a quotient
  is \<open>div\<close> on \<^typ>\<open>int\<close>, and \<^verbatim>\<open>%\<close> takes the sign of its left operand, which is \<open>smod\<close>.
\<close>

definition formatUptime :: "int \<Rightarrow> int \<Rightarrow> string" where
  "formatUptime now startTime =
     (let diff = now - startTime;
          secs = (diff div 1000) smod 60;
          mins = (diff div 60000) smod 60;
          hours = diff div 3600000
      in numberToString hours @ ''h '' @ numberToString mins @ ''m '' @ numberToString secs @ ''s'')"

section \<open>Configuration, command table and chat items\<close>

text \<open>
  \<^verbatim>\<open>config.discordWebhook\<close> is an object with the fields \<^verbatim>\<open>enable\<close> and \<^verbatim>\<open>url\<close>, or
  \<^verbatim>\<open>null\<close>; a missing \<^verbatim>\<open>url\<close> is the empty string here, which is as falsy as
  \<^verbatim>\<open>undefined\<close>. \<^verbatim>\<open>config.timedMessages\<close> plays no part in \<^verbatim>\<open>pollChat\<close> and is left out.
\<close>

record webhook =
  enable :: bool
  url :: string

record config =
  badWords :: "string list"
  discordWebhook :: "webhook option"

text \<open>
  An entry of \<^verbatim>\<open>botYml.commands\<close>: \<^verbatim>\<open>trigger\<close> and \<^verbatim>\<open>response\<close> (the empty string when
  missing, which is as falsy), and the optional \<^verbatim>\<open>description\<close> and \<^verbatim>\<open>aliases\<close>.
\<close>

record yamlCommand =
  trigger :: string
  response :: string
  description :: "string option"
  aliases :: "string list option"

text \<open>A value of the \<^verbatim>\<open>commands\<close> object.\<close>

record command =
  response :: string
  description :: string
  aliases :: "string list"

text \<open>
  The own properties of \<^verbatim>\<open>commands\<close> are a map from keys to commands. \<^verbatim>\<open>commands\<close>
  is a plain object, so a key that is not an own property is looked up in
  \<^verbatim>\<open>Object.prototype\<close>; of the names found there only \<^verbatim>\<open>constructor\<close> and
  \<^verbatim>\<open>__proto__\<close> are their own lower-case form. Both are truthy and have no
  \<^verbatim>\<open>response\<close>. (The model takes the prototype of \<^verbatim>\<open>commands\<close> to be
  \<^verbatim>\<open>Object.prototype\<close>: no trigger or alias of bot.yml is \<^verbatim>\<open>__proto__\<close>.)
\<close>

datatype property = Own command | Inherited | Undefined

definition getProperty :: "(string \<rightharpoonup> command) \<Rightarrow> string \<Rightarrow> property" where
  "getProperty commands key =
     (case commands key of
        Some cmd \<Rightarrow> Own cmd
      | None \<Rightarrow> if key = ''constructor'' \<or> key = ''__proto__'' then Inherited else Undefined)"

text \<open>
  \<^verbatim>\<open>
  botYml.commands.forEach((cmd) => {
    if (cmd.trigger && cmd.response) {
      commands[cmd.trigger.toLowerCase()] = {
        response: cmd.response,
        description: cmd.description || "",
        aliases: Array.isArray(cmd.aliases) ? cmd.aliases : [],
      };
      if (Array.isArray(cmd.aliases)) {
        cmd.aliases.forEach((alias) => {
          commands[alias.toLowerCase()] = { response: cmd.response,
            description: cmd.description || "", aliases: cmd.aliases };
        });
      }
    }
  });
  \<close>
\<close>

definition addCommand :: "(string \<rightharpoonup> command) \<Rightarrow> yamlCommand \<Rightarrow> (string \<rightharpoonup> command)" where
  "addCommand commands cmd =
     (if trigger cmd \<noteq> [] \<and> yamlCommand.response cmd \<noteq> [] then
        (let names = (case yamlCommand.aliases cmd of None \<Rightarrow> [] | Some as \<Rightarrow> as);
             obj = \<lparr>response = yamlCommand.response cmd,
                    description = (case yamlCommand.description cmd of None \<Rightarrow> [] | Some d \<Rightarrow> d),
                    aliases = names\<rparr>
         in foldl (\<lambda>m alias. m(toLowerCase alias \<mapsto> obj))
              (commands(toLowerCase (trigger cmd) \<mapsto> obj)) names)
      else commands)"

definition loadCommands :: "yamlCommand list \<Rightarrow> (string \<rightharpoonup> command)" where
  "loadCommands cmds = foldl addCommand Map.empty cmds"

text \<open>
  An item of \<^verbatim>\<open>res.data.items\<close>: \<^verbatim>\<open>authorDetails.channelId\<close>,
  \<^verbatim>\<open>authorDetails.displayName\<close>, \<^verbatim>\<open>authorDetails.profileImageUrl\<close> and
  \<^verbatim>\<open>snippet.displayMessage\<close>. The channel id is the provider's identifier of the
  author; \<^verbatim>\<open>pollChat\<close> never reads it.
\<close>

record chatItem =
  channelId :: string
  displayName :: string
  profileImageUrl :: "string option"
  displayMessage :: string

text \<open>\<^verbatim>\<open>res.data\<close> of a successful \<^verbatim>\<open>liveChatMessages.list\<close> call.\<close>

record listResponse =
  data_items :: "chatItem list"
  data_nextPageToken :: "string option"
  data_pollingIntervalMillis :: "nat option"

section \<open>Effects, the outside world and the state of the bot\<close>

text \<open>The step of the loop body that issues a call.\<close>

datatype step = RelayStep | WelcomeStep | ModerationStep | CommandStep

text \<open>
  Everything \<^verbatim>\<open>pollChat\<close> does to the outside world, in the order it does it:
  \<^item> \<open>ListMessages t\<close>: \<^verbatim>\<open>youtube.liveChatMessages.list\<close> with page token \<open>t\<close>;
  \<^item> \<open>LogInfo\<close>, \<open>LogError\<close>: a line of the logger;
  \<^item> \<open>Fetch st u name avatar content\<close>: the POST to the webhook \<open>u\<close> with the body
    \<^verbatim>\<open>{username, avatar_url, content}\<close>;
  \<^item> \<open>Insert st text\<close>: \<^verbatim>\<open>youtube.liveChatMessages.insert\<close> with the message text;
  \<^item> \<open>WriteFile ps\<close>: the participants file is written with the array \<open>ps\<close>;
  \<^item> \<open>SetTimeout d\<close>: \<^verbatim>\<open>setTimeout(pollChat, d)\<close>.
\<close>

datatype event =
    ListMessages string
  | LogInfo string
  | LogError string
  | Fetch step string string "string option" string
  | Insert step string
  | WriteFile "string list"
  | SetTimeout nat

text \<open>
  The outside world decides, from the events so far (the last one being the call that is
  under way), whether that call fails and with which error message, what the chat
  provider answers to a list call, and what the clock shows.
\<close>

record world =
  fails :: "event list \<Rightarrow> string option"
  listResult :: "event list \<Rightarrow> string + listResponse"
  clock :: "event list \<Rightarrow> int"

text \<open>
  The variables \<^verbatim>\<open>pollChat\<close> reads and writes: the module's \<^verbatim>\<open>participants\<close> (a
  \<^verbatim>\<open>Set\<close>, kept in insertion order), \<^verbatim>\<open>nextPageToken\<close> and \<^verbatim>\<open>firstRun\<close> of
  \<^verbatim>\<open>listenAndRespond\<close>, and the events so far.
\<close>

record bot =
  participants :: "string list"
  nextPageToken :: "string option"
  firstRun :: bool
  effects :: "event list"

text \<open>
  A statement completes normally or throws. What is thrown inside \<^verbatim>\<open>pollChat\<close> is an
  \<^verbatim>\<open>Error\<close> object (of the API client, of \<^verbatim>\<open>fetch\<close>, or a \<^verbatim>\<open>TypeError\<close>); the model keeps
  its \<^verbatim>\<open>message\<close>.
\<close>

datatype completion = Normal | Throw string

definition emit :: "event \<Rightarrow> bot \<Rightarrow> bot" where
  "emit e b = b\<lparr>effects := effects b @ [e]\<rparr>"

text \<open>An awaited call to the outside: it is recorded, and it throws when the world says so.\<close>

definition call :: "world \<Rightarrow> event \<Rightarrow> bot \<Rightarrow> completion \<times> bot" where
  "call env e b =
     (let b' = emit e b
      in (case fails env (effects b') of None \<Rightarrow> (Normal, b') | Some err \<Rightarrow> (Throw err, b')))"

text \<open>Sequencing: the second statement runs only if the first completes normally.\<close>

definition andThen ::
  "(bot \<Rightarrow> completion \<times> bot) \<Rightarrow> (bot \<Rightarrow> completion \<times> bot) \<Rightarrow> bot \<Rightarrow> completion \<times> bot" where
  "andThen f g b = (case f b of (Normal, b') \<Rightarrow> g b' | (Throw err, b') \<Rightarrow> (Throw err, b'))"

section \<open>The functions pollChat calls\<close>

text \<open>
  \<^verbatim>\<open>
  function saveParticipants() {
    try {
      fs.writeFileSync(PARTICIPANTS_FILE, JSON.stringify([...participants]));
    } catch (err) {
      logger.error(`Failed to save participants: ${err.message}`);
    }
  }
  \<close>
\<close>

definition saveParticipants :: "world \<Rightarrow> bot \<Rightarrow> bot" where
  "saveParticipants env b =
     (case call env (WriteFile (participants b)) b of
        (Normal, b') \<Rightarrow> b'
      | (Throw err, b') \<Rightarrow> emit (LogError (''Failed to save participants: '' @ err)) b')"

text \<open>
  \<^verbatim>\<open>
  async function sendMessage(youtube, liveChatId, text) {
    await youtube.liveChatMessages.insert({ ... textMessageDetails: { messageText: text } ... });
  }
  \<close>
\<close>

definition sendMessage :: "world \<Rightarrow> step \<Rightarrow> string \<Rightarrow> bot \<Rightarrow> completion \<times> bot" where
  "sendMessage env st text b = call env (Insert st text) b"

text \<open>
  \<^verbatim>\<open>
  async function sendToDiscord(user, avatar, message) {
    if (!config.discordWebhook || !config.discordWebhook.enable || !config.discordWebhook.url)
      return;
    await fetch(config.discordWebhook.url, { method: "POST", ...
      body: JSON.stringify({ username: user, avatar_url: avatar, content: message }) });
  }
  \<close>
  The response of the webhook is not looked at: only a rejected \<^verbatim>\<open>fetch\<close> throws.
\<close>

definition sendToDiscord ::
  "world \<Rightarrow> config \<Rightarrow> step \<Rightarrow> string \<Rightarrow> string option \<Rightarrow> string \<Rightarrow> bot \<Rightarrow> completion \<times> bot" where
  "sendToDiscord env cfg st user avatar message b =
     (case discordWebhook cfg of
        None \<Rightarrow> (Normal, b)
      | Some hook \<Rightarrow>
          if \<not> enable hook \<or> url hook = [] then (Normal, b)
          else call env (Fetch st (url hook) user avatar message) b)"

section \<open>pollChat\<close>

text \<open>The three texts the loop body sends; the waving hand is its four UTF-8 bytes.\<close>

definition welcomeText :: "string \<Rightarrow> string" where
  "welcomeText user =
     [CHR 0xF0, CHR 0x9F, CHR 0x91, CHR 0x8B] @ '' Welcome @'' @ user @
     '' to the stream, Thanks for joining!''"

definition warningText :: "string \<Rightarrow> string" where
  "warningText user = ''@'' @ user @ '', please avoid bad language!''"

definition noticeText :: "string \<Rightarrow> string \<Rightarrow> string" where
  "noticeText user message =
     ''@'' @ user @ '' used a banned word: '' @ [CHR 0x22] @ message @ [CHR 0x22]"

text \<open>
  \<^verbatim>\<open>
  if (!participants.has(user)) {
    participants.add(user);
    saveParticipants();
    await sendMessage(youtube, liveChatId, `... Welcome @${user} to the stream, Thanks for joining!`);
  }
  \<close>
\<close>

definition welcomeFirstTime :: "world \<Rightarrow> string \<Rightarrow> bot \<Rightarrow> completion \<times> bot" where
  "welcomeFirstTime env user b =
     (if user \<notin> set (participants b) then
        sendMessage env WelcomeStep (welcomeText user)
          (saveParticipants env (b\<lparr>participants := participants b @ [user]\<rparr>))
      else (Normal, b))"

text \<open>\<^verbatim>\<open>config.badWords.some((w) => message.toLowerCase().includes(w))\<close>\<close>

definition hasBadWord :: "config \<Rightarrow> string \<Rightarrow> bool" where
  "hasBadWord cfg message = list_ex (\<lambda>w. str_includes (toLowerCase message) w) (badWords cfg)"

text \<open>
  \<^verbatim>\<open>
  await sendMessage(youtube, liveChatId, `@${user}, please avoid bad language!`);
  await sendToDiscord("Bot", null, `@${user} used a banned word: "${message}"`);
  continue;
  \<close>
\<close>

definition moderate :: "world \<Rightarrow> config \<Rightarrow> string \<Rightarrow> string \<Rightarrow> bot \<Rightarrow> completion \<times> bot" where
  "moderate env cfg user message =
     andThen (sendMessage env ModerationStep (warningText user))
       (sendToDiscord env cfg ModerationStep ''Bot'' None (noticeText user message))"

text \<open>
  \<^verbatim>\<open>
  let reply = cmdObj.response
    .replace("{user}", user)
    .replace("{uptime}", formatUptime(startTime));
  if (reply.includes("{args}")) {
    const parts = message.split(" ");
    const args = parts.slice(1).join(" ");
    reply = reply.replace("{args}", args);
  }
  \<close>
\<close>

definition renderReply :: "string \<Rightarrow> string \<Rightarrow> string \<Rightarrow> string" where
  "renderReply template user uptime =
     replace_str (replace_str template ''{user}'' user) ''{uptime}'' uptime"

definition fillArgs :: "string \<Rightarrow> string \<Rightarrow> string" where
  "fillArgs reply message =
     (if str_includes reply ''{args}'' then
        (let parts = split_sp message; args = join_sp (drop 1 parts)
         in replace_str reply ''{args}'' args)
      else reply)"

text \<open>
  \<^verbatim>\<open>
  const cmdObj = commands[message.toLowerCase()];
  if (cmdObj) { ...; await sendMessage(youtube, liveChatId, reply); }
  \<close>
  For an inherited property \<^verbatim>\<open>cmdObj.response\<close> is \<^verbatim>\<open>undefined\<close>, and calling
  \<^verbatim>\<open>replace\<close> on it throws a \<^verbatim>\<open>TypeError\<close>.
\<close>

definition typeError :: string where
  "typeError =
     ''Cannot read properties of undefined (reading '' @ [CHR 0x27] @ ''replace'' @ [CHR 0x27] @ '')''"

definition dispatch ::
  "world \<Rightarrow> (string \<rightharpoonup> command) \<Rightarrow> int \<Rightarrow> string \<Rightarrow> string \<Rightarrow> bot \<Rightarrow> completion \<times> bot" where
  "dispatch env commands startTime user message b =
     (case getProperty commands (toLowerCase message) of
        Undefined \<Rightarrow> (Normal, b)
      | Inherited \<Rightarrow> (Throw typeError, b)
      | Own cmdObj \<Rightarrow>
          sendMessage env CommandStep
            (fillArgs (renderReply (response cmdObj) user (formatUptime (clock env (effects b)) startTime))
               message) b)"

text \<open>The body of the \<^verbatim>\<open>for\<close> loop, for one item.\<close>

definition processItem ::
  "world \<Rightarrow> config \<Rightarrow> (string \<rightharpoonup> command) \<Rightarrow> int \<Rightarrow> chatItem \<Rightarrow> bot \<Rightarrow> completion \<times> bot" where
  "processItem env cfg commands startTime item b =
     (let user = displayName item;
          avatar = profileImageUrl item;
          message = displayMessage item
      in andThen (sendToDiscord env cfg RelayStep user avatar message)
           (andThen (welcomeFirstTime env user)
              (if hasBadWord cfg message then moderate env cfg user message
               else dispatch env commands startTime user message))
           (emit (LogInfo (user @ '': '' @ message)) b))"

text \<open>The \<^verbatim>\<open>for\<close> loop: an error thrown in the body leaves the loop.\<close>

fun processItems ::
  "world \<Rightarrow> config \<Rightarrow> (string \<rightharpoonup> command) \<Rightarrow> int \<Rightarrow> chatItem list \<Rightarrow> bot \<Rightarrow> completion \<times> bot" where
  "processItems env cfg commands startTime [] b = (Normal, b)"
| "processItems env cfg commands startTime (item # rest) b =
     andThen (processItem env cfg commands startTime item)
       (processItems env cfg commands startTime rest) b"

text \<open>
  The \<^verbatim>\<open>try\<close> block of \<^verbatim>\<open>pollChat\<close>:
  \<^verbatim>\<open>
  const res = await youtube.liveChatMessages.list({ ..., pageToken: nextPageToken || "" });
  if (!firstRun) { for (const item of res.data.items) { ... } }
  firstRun = false;
  nextPageToken = res.data.nextPageToken;
  const interval = res.data.pollingIntervalMillis || 5000;
  setTimeout(pollChat, interval);
  \<close>
\<close>

definition pageToken :: "bot \<Rightarrow> string" where
  "pageToken b = (case nextPageToken b of None \<Rightarrow> [] | Some t \<Rightarrow> t)"

definition pollInterval :: "nat option \<Rightarrow> nat" where
  "pollInterval suggested =
     (case suggested of None \<Rightarrow> 5000 | Some n \<Rightarrow> if n = 0 then 5000 else n)"

definition pollTry ::
  "world \<Rightarrow> config \<Rightarrow> (string \<rightharpoonup> command) \<Rightarrow> int \<Rightarrow> bot \<Rightarrow> completion \<times> bot" where
  "pollTry env cfg commands startTime b =
     (let b0 = emit (ListMessages (pageToken b)) b
      in (case listResult env (effects b0) of
            Inl err \<Rightarrow> (Throw err, b0)
          | Inr res \<Rightarrow>
              andThen
                (if \<not> firstRun b0 then processItems env cfg commands startTime (data_items res)
                 else (\<lambda>b1. (Normal, b1)))
                (\<lambda>b1. (Normal,
                   emit (SetTimeout (pollInterval (data_pollingIntervalMillis res)))
                     (b1\<lparr>firstRun := False, nextPageToken := data_nextPageToken res\<rparr>)))
                b0))"

text \<open>
  The \<^verbatim>\<open>catch\<close> block:
  \<^verbatim>\<open>
  logger.error("Polling error:", err.message);
  const backoff = err.message.includes("quota") ? 60000 : 10000;
  setTimeout(pollChat, backoff);
  \<close>
\<close>

definition backoff :: "string \<Rightarrow> nat" where
  "backoff err = (if str_includes err ''quota'' then 60000 else 10000)"

definition pollChat :: "world \<Rightarrow> config \<Rightarrow> (string \<rightharpoonup> command) \<Rightarrow> int \<Rightarrow> bot \<Rightarrow> bot" where
  "pollChat env cfg commands startTime b =
     (case pollTry env cfg commands startTime b of
        (Normal, b') \<Rightarrow> b'
      | (Throw err, b') \<Rightarrow> emit (SetTimeout (backoff err)) (emit (LogError ''Polling error:'') b'))"

text \<open>
  \<^verbatim>\<open>listenAndRespond\<close> starts with no page token and \<^verbatim>\<open>firstRun = true\<close>; the
  participants are those loaded from the file, each once, in the order of their first
  occurrence. Every \<^verbatim>\<open>pollChat\<close> sets one timer for the
  next, so a process lifetime is a number of polls, one after the other.
\<close>

definition startup :: "string list \<Rightarrow> bot" where
  "startup loaded =
     \<lparr>participants = rev (remdups (rev loaded)), nextPageToken = None, firstRun = True, effects = []\<rparr>"

fun polls :: "nat \<Rightarrow> world \<Rightarrow> config \<Rightarrow> (string \<rightharpoonup> command) \<Rightarrow> int \<Rightarrow> bot \<Rightarrow> bot" where
  "polls 0 env cfg commands startTime b = b"
| "polls (Suc n) env cfg commands startTime b =
     polls n env cfg commands startTime (pollChat env cfg commands startTime b)"

section \<open>Auxiliary notions for the properties\<close>

text \<open>
  An event is quiet when it is neither a list call nor a timer. A state \<open>b'\<close> is reached
  from \<open>b\<close> inside one poll when the page token and the first-run flag are those of
  \<open>b\<close> and the events of \<open>b'\<close> are those of \<open>b\<close> followed by quiet ones.
\<close>

definition quiet :: "event \<Rightarrow> bool" where
  "quiet e = (case e of ListMessages t \<Rightarrow> False | SetTimeout d \<Rightarrow> False | _ \<Rightarrow> True)"

definition inner :: "bot \<Rightarrow> bot \<Rightarrow> bool" where
  "inner b b' =
     (nextPageToken b' = nextPageToken b \<and> firstRun b' = firstRun b \<and>
      prefix (effects b) (effects b') \<and>
      list_all quiet (drop (length (effects b)) (effects b')))"

text \<open>An event is silent when it is a list call, an error line of the log or a timer.\<close>

definition silent :: "event \<Rightarrow> bool" where
  "silent e =
     (case e of ListMessages t \<Rightarrow> True | LogError l \<Rightarrow> True | SetTimeout d \<Rightarrow> True | _ \<Rightarrow> False)"

text \<open>
  The number of welcome replies sent so far to a display name, and the invariant of a
  process lifetime: the names loaded at startup stay in the store, and a name has been
  welcomed at most once, and only if it is in the store without having been loaded.
\<close>

definition welcomed :: "string \<Rightarrow> bot \<Rightarrow> nat" where
  "welcomed user b = count_list (effects b) (Insert WelcomeStep (welcomeText user))"

definition welcomeOnce :: "string list \<Rightarrow> string \<Rightarrow> bot \<Rightarrow> bool" where
  "welcomeOnce loaded user b =
     (set loaded \<subseteq> set (participants b) \<and>
      welcomed user b \<le> (if user \<in> set (participants b) \<and> user \<notin> set loaded then 1 else 0))"

section \<open>Sample data\<close>

text \<open>
  A configuration with an enabled webhook, a command table, a world in which every call
  succeeds, a world in which the webhook cannot be reached, a bot past its first poll, a
  chat item and a successful answer of the provider.
\<close>

definition exampleConfig :: config where
  "exampleConfig =
     \<lparr>badWords = [''darn''],
      discordWebhook = Some \<lparr>enable = True, url = ''https://discord.example/hook''\<rparr>\<rparr>"

definition exampleCommands :: "string \<rightharpoonup> command" where
  "exampleCommands =
     [''!help'' \<mapsto> \<lparr>response = ''Commands: !help, !echo'', description = [], aliases = []\<rparr>,
      ''!echo'' \<mapsto> \<lparr>response = ''You said: {args}'', description = [], aliases = []\<rparr>,
      ''!uptime'' \<mapsto>
        \<lparr>response = ''{user}, the stream has been live for {uptime}'', description = [],
         aliases = []\<rparr>,
      ''!hi'' \<mapsto>
        \<lparr>response = ''Hi {user}! {user}, we are live since {uptime} ({uptime})'', description = [],
         aliases = []\<rparr>]"

definition exampleYaml :: "yamlCommand list" where
  "exampleYaml =
     [\<lparr>trigger = ''!Help'', response = ''Commands: !help, !echo'', description = None,
       aliases = None\<rparr>,
      \<lparr>trigger = ''!echo'', response = ''You said: {args}'', description = None,
       aliases = Some [''!Say'']\<rparr>]"

definition steady :: "string + listResponse \<Rightarrow> world" where
  "steady answer = \<lparr>fails = (\<lambda>h. None), listResult = (\<lambda>h. answer), clock = (\<lambda>h. 3725000)\<rparr>"

definition unreachable :: "string + listResponse \<Rightarrow> world" where
  "unreachable answer =
     \<lparr>fails = (\<lambda>h. case rev h of Fetch st u name avatar content # es \<Rightarrow> Some ''fetch failed''
                        | _ \<Rightarrow> None),
      listResult = (\<lambda>h. answer), clock = (\<lambda>h. 3725000)\<rparr>"

definition running :: "string list \<Rightarrow> bot" where
  "running ps = \<lparr>participants = ps, nextPageToken = Some ''page2'', firstRun = False, effects = []\<rparr>"

definition says :: "string \<Rightarrow> string \<Rightarrow> string \<Rightarrow> chatItem" where
  "says cid name text =
     \<lparr>channelId = cid, displayName = name, profileImageUrl = None, displayMessage = text\<rparr>"

definition batch :: "chatItem list \<Rightarrow> nat option \<Rightarrow> string + listResponse" where
  "batch its suggested =
     Inr \<lparr>data_items = its, data_nextPageToken = Some ''page3'',
          data_pollingIntervalMillis = suggested\<rparr>"

section \<open>Properties\<close>

subsection \<open>The uptime text\<close>

lemma smod_nonneg: "0 \<le> k \<Longrightarrow> 0 < l \<Longrightarrow> (k::int) smod l = k mod l"
  by (cases "k = 0") (simp_all add: signed_modulo_int_def)

lemma numberToString_nat: "numberToString (int n) = digits n"
  by (simp add: numberToString_def)

lemma digits_one: "n < 10 \<Longrightarrow> digits n = [digitChar n]"
  by (simp add: digits.simps)

lemma digits_examples:
  "digits 0 = ''0''" "digits 7 = ''7''" "digits 60 = ''60''" "digits 1905 = ''1905''"
  by (simp_all add: digits.simps [of 1905] digits.simps [of 190] digits.simps [of 60]
        digits.simps [of 19] digits_one digitChar_def)

text \<open>
  C8. When \<open>elapsed\<close> milliseconds have passed since the session started, the uptime
  placeholder renders as hours, minutes and seconds, where the hours are
  \<open>elapsed div 3600000\<close>, the minutes \<open>(elapsed div 60000) mod 60\<close> and the seconds
  \<open>(elapsed div 1000) mod 60\<close>; and 3725000 ms render as \<open>1h 2m 5s\<close>.
\<close>

theorem formatUptime_units:
  "formatUptime (startTime + int elapsed) startTime =
     digits (elapsed div 3600000) @ ''h '' @ digits ((elapsed div 60000) mod 60) @ ''m '' @
     digits ((elapsed div 1000) mod 60) @ ''s''
   \<and> formatUptime (startTime + 3725000) startTime = ''1h 2m 5s''"
proof
  have d: "int elapsed div 1000 = int (elapsed div 1000)"
          "int elapsed div 60000 = int (elapsed div 60000)"
          "int elapsed div 3600000 = int (elapsed div 3600000)"
    by (simp_all add: zdiv_int)
  have m: "int (elapsed div 1000) smod 60 = int ((elapsed div 1000) mod 60)"
          "int (elapsed div 60000) smod 60 = int ((elapsed div 60000) mod 60)"
    by (simp_all add: smod_nonneg zmod_int)
  show "formatUptime (startTime + int elapsed) startTime =
     digits (elapsed div 3600000) @ ''h '' @ digits ((elapsed div 60000) mod 60) @ ''m '' @
     digits ((elapsed div 1000) mod 60) @ ''s''"
    unfolding formatUptime_def Let_def
    by (simp only: add_diff_cancel_left' d m numberToString_nat)
  have "formatUptime (startTime + 3725000) startTime =
          numberToString 1 @ ''h '' @ numberToString 2 @ ''m '' @ numberToString 5 @ ''s''"
    unfolding formatUptime_def Let_def by (simp add: signed_modulo_int_def)
  also have "\<dots> = ''1h 2m 5s''"
    by (simp add: numberToString_def digits_one digitChar_def)
  finally show "formatUptime (startTime + 3725000) startTime = ''1h 2m 5s''" .
qed

subsection \<open>What the steps of a poll leave alone\<close>

lemma emit_simps [simp]:
  "effects (emit e b) = effects b @ [e]"
  "participants (emit e b) = participants b"
  "nextPageToken (emit e b) = nextPageToken b"
  "firstRun (emit e b) = firstRun b"
  by (simp_all add: emit_def)

lemma call_result:
  "call env e b = (c, b') \<Longrightarrow>
     b' = emit e b \<and> c = (case fails env (effects b @ [e]) of None \<Rightarrow> Normal | Some err \<Rightarrow> Throw err)"
  by (auto simp: call_def Let_def split: option.splits)

lemma andThen_Normal: "f b = (Normal, b1) \<Longrightarrow> andThen f g b = g b1"
  by (simp add: andThen_def)

lemma andThen_Throw: "f b = (Throw err, b1) \<Longrightarrow> andThen f g b = (Throw err, b1)"
  by (simp add: andThen_def)

lemma andThen_cases:
  assumes "andThen f g b = (c, b')"
  obtains (first) err where "f b = (Throw err, b')" "c = Throw err"
        | (second) b1 where "f b = (Normal, b1)" "g b1 = (c, b')"
  using assms by (auto simp: andThen_def split: prod.splits completion.splits)

lemma inner_refl [simp]: "inner b b"
  by (simp add: inner_def)

lemma inner_trans: "inner b b1 \<Longrightarrow> inner b1 b2 \<Longrightarrow> inner b b2"
  by (auto simp: inner_def prefix_def)

lemma inner_emit: "quiet e \<Longrightarrow> inner b (emit e b)"
  by (simp add: inner_def)

lemma inner_call: "quiet e \<Longrightarrow> call env e b = (c, b') \<Longrightarrow> inner b b'"
  by (auto dest!: call_result simp: inner_emit)

lemma inner_andThen:
  assumes "andThen f g b = (c, b')"
      and "\<And>c1 b1. f b = (c1, b1) \<Longrightarrow> inner b b1"
      and "\<And>b1 c2 b2. g b1 = (c2, b2) \<Longrightarrow> inner b1 b2"
  shows "inner b b'"
  using assms(1)
proof (cases rule: andThen_cases)
  case (first err) then show ?thesis using assms(2) by blast
next
  case (second b1) then show ?thesis using assms(2,3) inner_trans by blast
qed

lemma inner_sendMessage: "sendMessage env st text b = (c, b') \<Longrightarrow> inner b b'"
  by (auto simp: sendMessage_def quiet_def elim: inner_call [rotated])

lemma inner_sendToDiscord: "sendToDiscord env cfg st user avatar message b = (c, b') \<Longrightarrow> inner b b'"
  by (auto simp: sendToDiscord_def quiet_def split: option.splits if_splits elim: inner_call [rotated])

lemma inner_participants: "inner (b\<lparr>participants := ps\<rparr>) b' \<Longrightarrow> inner b b'"
  by (simp add: inner_def)

lemma inner_saveParticipants: "inner b (saveParticipants env b)"
  by (auto simp: saveParticipants_def quiet_def split: prod.splits completion.splits
           dest!: call_result intro!: inner_emit inner_trans [OF inner_emit inner_emit])

lemma inner_welcomeFirstTime: "welcomeFirstTime env user b = (c, b') \<Longrightarrow> inner b b'"
  by (auto simp: welcomeFirstTime_def split: if_splits
           dest!: inner_sendMessage intro: inner_participants inner_trans [OF inner_saveParticipants])

lemma inner_moderate: "moderate env cfg user message b = (c, b') \<Longrightarrow> inner b b'"
  unfolding moderate_def
  by (erule inner_andThen) (auto dest: inner_sendMessage inner_sendToDiscord)

lemma inner_dispatch: "dispatch env commands startTime user message b = (c, b') \<Longrightarrow> inner b b'"
  by (auto simp: dispatch_def split: property.splits dest: inner_sendMessage)

lemma inner_processItem: "processItem env cfg commands startTime item b = (c, b') \<Longrightarrow> inner b b'"
proof -
  assume a: "processItem env cfg commands startTime item b = (c, b')"
  let ?b0 = "emit (LogInfo (displayName item @ '': '' @ displayMessage item)) b"
  have "inner ?b0 b'"
    using a unfolding processItem_def Let_def
    apply (rule inner_andThen)
     apply (erule inner_sendToDiscord)
    apply (erule inner_andThen)
     apply (erule inner_welcomeFirstTime)
    apply (auto split: if_splits dest: inner_moderate inner_dispatch)
    done
  moreover have "inner b ?b0" by (simp add: inner_emit quiet_def)
  ultimately show ?thesis by (rule inner_trans [rotated])
qed

lemma inner_processItems: "processItems env cfg commands startTime items b = (c, b') \<Longrightarrow> inner b b'"
proof (induction items arbitrary: b c b')
  case Nil then show ?case by simp
next
  case (Cons item rest)
  show ?case
    using Cons.prems unfolding processItems.simps
    by (rule inner_andThen) (erule inner_processItem, erule Cons.IH)
qed

lemma str_includes_sublist: "str_includes s w \<longleftrightarrow> sublist w s"
  by (induction s) (auto simp: sublist_Cons_right)

lemma pollTry_Throw:
  assumes "pollTry env cfg commands startTime b = (Throw err, b')"
  shows "inner (emit (ListMessages (pageToken b)) b) b'"
  using assms unfolding pollTry_def Let_def
  by (auto split: sum.splits if_splits elim!: andThen_cases dest: inner_processItems)

lemma pollTry_Normal:
  assumes "pollTry env cfg commands startTime b = (Normal, b')"
  shows "\<exists>res b1. listResult env (effects b @ [ListMessages (pageToken b)]) = Inr res \<and>
           inner (emit (ListMessages (pageToken b)) b) b1 \<and>
           b' = emit (SetTimeout (pollInterval (data_pollingIntervalMillis res)))
                  (b1\<lparr>firstRun := False, nextPageToken := data_nextPageToken res\<rparr>)"
proof (cases "listResult env (effects b @ [ListMessages (pageToken b)])")
  case (Inl err)
  then show ?thesis using assms by (simp add: pollTry_def)
next
  case (Inr res)
  let ?b0 = "emit (ListMessages (pageToken b)) b"
  let ?fin = "\<lambda>b1. emit (SetTimeout (pollInterval (data_pollingIntervalMillis res)))
                  (b1\<lparr>firstRun := False, nextPageToken := data_nextPageToken res\<rparr>)"
  show ?thesis
  proof (cases "firstRun b")
    case True
    then have "b' = ?fin ?b0" using assms Inr by (simp add: pollTry_def andThen_def)
    then show ?thesis using Inr inner_refl by blast
  next
    case False
    then obtain b1 where "processItems env cfg commands startTime (data_items res) ?b0 = (Normal, b1)"
        and "b' = ?fin b1"
      using assms Inr by (auto simp: pollTry_def elim!: andThen_cases)
    then show ?thesis using Inr inner_processItems by blast
  qed
qed

lemma inner_effects:
  "inner b b' \<Longrightarrow> \<exists>es. effects b' = effects b @ es \<and> list_all quiet es"
  by (auto simp: inner_def prefix_def)

lemma pollTry_Normal_effects:
  assumes "pollTry env cfg commands startTime b = (Normal, b')"
  shows "\<exists>res es. listResult env (effects b @ [ListMessages (pageToken b)]) = Inr res \<and>
           effects b' = effects b @ ListMessages (pageToken b) # es @
                          [SetTimeout (pollInterval (data_pollingIntervalMillis res))] \<and>
           list_all quiet es \<and> \<not> firstRun b' \<and> nextPageToken b' = data_nextPageToken res"
  using pollTry_Normal [OF assms] by (fastforce dest: inner_effects)

lemmas run_defs =
  Let_def pollChat_def pollTry_def pageToken_def pollInterval_def backoff_def andThen_def emit_def call_def
  processItem_def sendToDiscord_def sendMessage_def saveParticipants_def welcomeFirstTime_def
  hasBadWord_def moderate_def dispatch_def getProperty_def toLowerCase_def lowerChar_def
  welcomeText_def warningText_def noticeText_def
  exampleConfig_def exampleCommands_def steady_def unreachable_def running_def says_def batch_def startup_def

subsection \<open>Errors and rescheduling\<close>

text \<open>
  C6. \<^verbatim>\<open>pollChat\<close> returns a state whatever happens: no error leaves it. Every poll adds
  to the events its list call, then quiet events, then exactly one timer for the next
  poll. When the \<^verbatim>\<open>try\<close> block throws an error, the \<^verbatim>\<open>catch\<close> block logs it and sets the
  timer to 60000 ms if the message of the error contains \<open>quota\<close>, and to 10000 ms if
  it does not.
\<close>

theorem pollChat_always_reschedules:
  "(\<exists>es d. effects (pollChat env cfg commands startTime b) =
              effects b @ ListMessages (pageToken b) # es @ [SetTimeout d] \<and> list_all quiet es) \<and>
   (\<forall>err b'. pollTry env cfg commands startTime b = (Throw err, b') \<longrightarrow>
      pollChat env cfg commands startTime b =
        b'\<lparr>effects := effects b' @ [LogError ''Polling error:'',
               SetTimeout (if sublist ''quota'' err then 60000 else 10000)]\<rparr>)"
proof
  show "\<forall>err b'. pollTry env cfg commands startTime b = (Throw err, b') \<longrightarrow>
      pollChat env cfg commands startTime b =
        b'\<lparr>effects := effects b' @ [LogError ''Polling error:'',
               SetTimeout (if sublist ''quota'' err then 60000 else 10000)]\<rparr>"
    by (simp add: pollChat_def backoff_def emit_def str_includes_sublist)
  obtain c b' where r: "pollTry env cfg commands startTime b = (c, b')"
    by (cases "pollTry env cfg commands startTime b")
  show "\<exists>es d. effects (pollChat env cfg commands startTime b) =
              effects b @ ListMessages (pageToken b) # es @ [SetTimeout d] \<and> list_all quiet es"
  proof (cases c)
    case Normal
    with r have "pollTry env cfg commands startTime b = (Normal, b')" by simp
    from pollTry_Normal_effects [OF this] show ?thesis
      using r Normal by (auto simp: pollChat_def)
  next
    case (Throw err)
    with r have "pollTry env cfg commands startTime b = (Throw err, b')" by simp
    then have "inner (emit (ListMessages (pageToken b)) b) b'"
      by (rule pollTry_Throw)
    then obtain es where "effects b' = effects b @ ListMessages (pageToken b) # es" "list_all quiet es"
      by (auto dest: inner_effects)
    then have "effects (pollChat env cfg commands startTime b) =
                 effects b @ ListMessages (pageToken b) # (es @ [LogError ''Polling error:'']) @ [SetTimeout (backoff err)]
               \<and> list_all quiet (es @ [LogError ''Polling error:''])"
      using r Throw by (simp add: pollChat_def quiet_def)
    then show ?thesis by blast
  qed
qed

text \<open>
  A list call refused for the quota, and a webhook that cannot be reached while the first
  message of a batch is relayed.
\<close>

theorem pollChat_always_reschedules_witness:
  "pollChat (steady (Inl ''quotaExceeded'')) exampleConfig exampleCommands 0 (running []) =
     (running [])\<lparr>effects := [ListMessages ''page2'', LogError ''Polling error:'', SetTimeout 60000]\<rparr> \<and>
   pollChat (unreachable (batch [says ''UC1'' ''Ann'' ''hello''] None)) exampleConfig exampleCommands 0 (running []) =
     (running [])\<lparr>effects := [ListMessages ''page2'', LogInfo ''Ann: hello'',
        Fetch RelayStep ''https://discord.example/hook'' ''Ann'' None ''hello'',
        LogError ''Polling error:'', SetTimeout 10000]\<rparr>"
proof -
  have t1: "pollTry (steady (Inl ''quotaExceeded'')) exampleConfig exampleCommands 0 (running []) =
          (Throw ''quotaExceeded'', (running [])\<lparr>effects := [ListMessages ''page2'']\<rparr>)"
    by (simp add: run_defs)
  have t2: "pollTry (unreachable (batch [says ''UC1'' ''Ann'' ''hello''] None)) exampleConfig exampleCommands 0 (running []) =
          (Throw ''fetch failed'', (running [])\<lparr>effects := [ListMessages ''page2'', LogInfo ''Ann: hello'',
        Fetch RelayStep ''https://discord.example/hook'' ''Ann'' None ''hello'']\<rparr>)"
    by (simp add: run_defs)
  have q: "sublist ''quota'' ''quotaExceeded''" "\<not> sublist ''quota'' ''fetch failed''"
    by (simp_all add: str_includes_sublist [symmetric])
  show ?thesis
    using pollChat_always_reschedules [of "steady (Inl ''quotaExceeded'')" exampleConfig exampleCommands 0 "running []"]
          pollChat_always_reschedules [of "unreachable (batch [says ''UC1'' ''Ann'' ''hello''] None)" exampleConfig exampleCommands 0 "running []"]
          t1 t2 q
    by (simp add: running_def)
qed

lemma pollChat_Throw:
  "pollTry env cfg commands startTime b = (Throw err, b') \<Longrightarrow>
     pollChat env cfg commands startTime b =
       emit (SetTimeout (backoff err)) (emit (LogError ''Polling error:'') b')"
  by (simp add: pollChat_def)

lemma pollChat_Normal:
  "pollTry env cfg commands startTime b = (Normal, b') \<Longrightarrow> pollChat env cfg commands startTime b = b'"
  by (simp add: pollChat_def)

lemma pollChat_starts_with_list:
  "\<exists>es. effects (pollChat env cfg commands startTime b) = effects b @ ListMessages (pageToken b) # es"
proof (cases "pollTry env cfg commands startTime b")
  case (Pair c b')
  show ?thesis
  proof (cases c)
    case Normal
    with Pair have "pollTry env cfg commands startTime b = (Normal, b')" by simp
    from pollTry_Normal_effects [OF this] pollChat_Normal [OF this] show ?thesis by auto
  next
    case (Throw err)
    with Pair have t: "pollTry env cfg commands startTime b = (Throw err, b')" by simp
    from pollTry_Throw [OF t] obtain es where "effects b' = effects b @ ListMessages (pageToken b) # es"
      by (auto dest: inner_effects)
    then show ?thesis using pollChat_Throw [OF t] by simp
  qed
qed

text \<open>
  C9. When the \<^verbatim>\<open>try\<close> block of a poll throws an error, whether from the list call or
  while the messages of the batch are processed, the page token and the first-run flag
  after the poll are those before it, and the next poll begins with a list call for the
  same page token.
\<close>

theorem poll_error_keeps_cursor:
  assumes "pollTry env cfg commands startTime b = (Throw err, b')"
  shows "nextPageToken (pollChat env cfg commands startTime b) = nextPageToken b \<and>
         firstRun (pollChat env cfg commands startTime b) = firstRun b \<and>
         (\<exists>es. effects (pollChat env cfg commands startTime (pollChat env cfg commands startTime b)) =
                 effects (pollChat env cfg commands startTime b) @ ListMessages (pageToken b) # es)"
proof -
  let ?b1 = "pollChat env cfg commands startTime b"
  have i: "inner (emit (ListMessages (pageToken b)) b) b'"
    using assms by (rule pollTry_Throw)
  have n: "nextPageToken ?b1 = nextPageToken b" and f: "firstRun ?b1 = firstRun b"
    using i pollChat_Throw [OF assms] by (simp_all add: inner_def)
  from n have "pageToken ?b1 = pageToken b" by (simp add: pageToken_def)
  with pollChat_starts_with_list [of env cfg commands startTime ?b1] n f show ?thesis by simp
qed

text \<open>
  The webhook cannot be reached while the only message of the batch is relayed.
\<close>

theorem poll_error_keeps_cursor_witness:
  "nextPageToken (pollChat (unreachable (batch [says ''UC1'' ''Ann'' ''hello''] None)) exampleConfig exampleCommands 0 (running [])) = Some ''page2'' \<and>
   \<not> firstRun (pollChat (unreachable (batch [says ''UC1'' ''Ann'' ''hello''] None)) exampleConfig exampleCommands 0 (running [])) \<and>
   (\<exists>es. effects (pollChat (unreachable (batch [says ''UC1'' ''Ann'' ''hello''] None)) exampleConfig exampleCommands 0
             (pollChat (unreachable (batch [says ''UC1'' ''Ann'' ''hello''] None)) exampleConfig exampleCommands 0 (running []))) =
      effects (pollChat (unreachable (batch [says ''UC1'' ''Ann'' ''hello''] None)) exampleConfig exampleCommands 0 (running [])) @ 
        ListMessages ''page2'' # es)"
proof -
  have t: "pollTry (unreachable (batch [says ''UC1'' ''Ann'' ''hello''] None)) exampleConfig exampleCommands 0 (running []) =
          (Throw ''fetch failed'', (running [])\<lparr>effects := [ListMessages ''page2'', LogInfo ''Ann: hello'',
        Fetch RelayStep ''https://discord.example/hook'' ''Ann'' None ''hello'']\<rparr>)"
    by (simp add: run_defs)
  show ?thesis
    using poll_error_keeps_cursor [OF t] by (simp add: running_def pageToken_def)
qed

subsection \<open>The first poll\<close>

lemma silent_simps [simp]:
  "silent (ListMessages t)" "silent (LogError l)" "silent (SetTimeout d)"
  by (simp_all add: silent_def)

lemma polls_Suc:
  "polls (Suc n) env cfg commands startTime b =
     pollChat env cfg commands startTime (polls n env cfg commands startTime b)"
  by (induction n arbitrary: b) simp_all

lemma pollChat_firstRun:
  assumes "firstRun b"
  shows "pollChat env cfg commands startTime b =
           (case listResult env (effects b @ [ListMessages (pageToken b)]) of
              Inl err \<Rightarrow> b\<lparr>effects := effects b @ [ListMessages (pageToken b),
                               LogError ''Polling error:'', SetTimeout (backoff err)]\<rparr>
            | Inr res \<Rightarrow> b\<lparr>firstRun := False, nextPageToken := data_nextPageToken res,
                           effects := effects b @ [ListMessages (pageToken b),
                             SetTimeout (pollInterval (data_pollingIntervalMillis res))]\<rparr>)"
  using assms by (simp add: pollChat_def pollTry_def andThen_def emit_def split: sum.splits)

lemma pollChat_not_firstRun:
  "\<not> firstRun b \<Longrightarrow> \<not> firstRun (pollChat env cfg commands startTime b)"
proof (cases "pollTry env cfg commands startTime b")
  case (Pair c b')
  assume nf: "\<not> firstRun b"
  show ?thesis
  proof (cases c)
    case Normal
    with Pair have t: "pollTry env cfg commands startTime b = (Normal, b')" by simp
    from pollTry_Normal_effects [OF t] pollChat_Normal [OF t] show ?thesis by auto
  next
    case (Throw err)
    with Pair have t: "pollTry env cfg commands startTime b = (Throw err, b')" by simp
    from pollTry_Throw [OF t] pollChat_Throw [OF t] nf show ?thesis by (simp add: inner_def)
  qed
qed

lemma before_first_success:
  "firstRun (polls n env cfg commands startTime (startup loaded)) \<Longrightarrow>
     participants (polls n env cfg commands startTime (startup loaded)) = participants (startup loaded) \<and>
     list_all silent (effects (polls n env cfg commands startTime (startup loaded)))"
proof (induction n)
  case 0
  then show ?case by (simp add: startup_def)
next
  case (Suc n)
  let ?b = "polls n env cfg commands startTime (startup loaded)"
  from Suc.prems have f1: "firstRun (pollChat env cfg commands startTime ?b)"
    by (simp only: polls_Suc)
  then have f: "firstRun ?b" using pollChat_not_firstRun by blast
  with Suc.IH have ih: "participants ?b = participants (startup loaded)" "list_all silent (effects ?b)"
    by simp_all
  show ?case
    unfolding polls_Suc using ih f1
    by (simp add: pollChat_firstRun [OF f] split: sum.splits)
qed

text \<open>
  C7. A poll that finds the first-run flag set and whose list call succeeds changes the
  first-run flag and the page token and nothing else: whatever items the answer holds,
  the only events of that poll are the list call and the timer, and the participants are
  as before. The flag is set at startup; as long as it is still set after \<open>n\<close> polls,
  the participants after one more poll are those of startup and every event so far is a
  list call, an error line of the log or a timer.
\<close>

theorem first_poll_discards_items:
  "(firstRun b \<and> listResult env (effects b @ [ListMessages (pageToken b)]) = Inr res \<longrightarrow>
      pollChat env cfg commands startTime b =
        b\<lparr>firstRun := False, nextPageToken := data_nextPageToken res,
          effects := effects b @ [ListMessages (pageToken b),
                       SetTimeout (pollInterval (data_pollingIntervalMillis res))]\<rparr>) \<and>
   (firstRun (polls n env cfg commands startTime (startup loaded)) \<longrightarrow>
      participants (polls (Suc n) env cfg commands startTime (startup loaded)) =
        participants (startup loaded) \<and>
      list_all silent (effects (polls (Suc n) env cfg commands startTime (startup loaded))))"
proof (intro conjI impI)
  assume "firstRun b \<and> listResult env (effects b @ [ListMessages (pageToken b)]) = Inr res"
  then show "pollChat env cfg commands startTime b =
        b\<lparr>firstRun := False, nextPageToken := data_nextPageToken res,
          effects := effects b @ [ListMessages (pageToken b),
                       SetTimeout (pollInterval (data_pollingIntervalMillis res))]\<rparr>"
    by (simp add: pollChat_firstRun)
next
  let ?b = "polls n env cfg commands startTime (startup loaded)"
  assume f: "firstRun ?b"
  from before_first_success [OF f]
  have ih: "participants ?b = participants (startup loaded)" "list_all silent (effects ?b)"
    by simp_all
  show "participants (polls (Suc n) env cfg commands startTime (startup loaded)) =
        participants (startup loaded)"
    unfolding polls_Suc using ih by (simp add: pollChat_firstRun [OF f] split: sum.splits)
  show "list_all silent (effects (polls (Suc n) env cfg commands startTime (startup loaded)))"
    unfolding polls_Suc using ih by (simp add: pollChat_firstRun [OF f] split: sum.splits)
qed

text \<open>
  The first poll after startup, answered with a banned word and a command.
\<close>

theorem first_poll_discards_items_witness:
  "pollChat (steady (batch [says ''UC1'' ''Ann'' ''darn'', says ''UC2'' ''Bob'' ''!help''] (Some 2000)))
      exampleConfig exampleCommands 0 (startup [''Cy'']) =
     \<lparr>participants = [''Cy''], nextPageToken = Some ''page3'', firstRun = False,
      effects = [ListMessages [], SetTimeout 2000]\<rparr> \<and>
   participants (polls (Suc 0)
      (steady (batch [says ''UC1'' ''Ann'' ''darn'', says ''UC2'' ''Bob'' ''!help''] (Some 2000)))
      exampleConfig exampleCommands 0 (startup [''Cy''])) = [''Cy''] \<and>
   list_all silent (effects (polls (Suc 0)
      (steady (batch [says ''UC1'' ''Ann'' ''darn'', says ''UC2'' ''Bob'' ''!help''] (Some 2000)))
      exampleConfig exampleCommands 0 (startup [''Cy''])))"
proof -
  let ?w = "steady (batch [says ''UC1'' ''Ann'' ''darn'', says ''UC2'' ''Bob'' ''!help''] (Some 2000))"
  let ?res = "\<lparr>data_items = [says ''UC1'' ''Ann'' ''darn'', says ''UC2'' ''Bob'' ''!help''],
                data_nextPageToken = Some ''page3'', data_pollingIntervalMillis = Some 2000\<rparr>"
  have f: "firstRun (startup [''Cy''])" by (simp add: startup_def)
  have l: "listResult ?w (effects (startup [''Cy'']) @ [ListMessages (pageToken (startup [''Cy'']))]) =
           Inr ?res"
    by (simp add: steady_def batch_def)
  have g: "firstRun (polls 0 ?w exampleConfig exampleCommands 0 (startup [''Cy'']))"
    by (simp add: startup_def)
  have p: "participants (startup [''Cy'']) = [''Cy'']" by (simp add: startup_def)
  show ?thesis
    using first_poll_discards_items [where b = "startup [''Cy'']" and env = ?w and res = ?res
        and cfg = exampleConfig and commands = exampleCommands and startTime = 0 and n = 0
        and loaded = "[''Cy'']"] f l g p
    by (simp add: startup_def pageToken_def pollInterval_def)
qed

subsection \<open>The polling interval\<close>

text \<open>
  C4, as amended. After a successful poll the last event is the timer for the next poll,
  set to the interval the provider suggests when it suggests one other than zero, and to
  5000 ms when it suggests none or zero. No minimum is applied.
\<close>

theorem poll_interval_after_success:
  assumes "pollTry env cfg commands startTime b = (Normal, b')"
  shows "\<exists>res es. listResult env (effects b @ [ListMessages (pageToken b)]) = Inr res \<and>
           effects (pollChat env cfg commands startTime b) =
             effects b @ ListMessages (pageToken b) # es @
               [SetTimeout (case data_pollingIntervalMillis res of
                              None \<Rightarrow> 5000
                            | Some n \<Rightarrow> if n = 0 then 5000 else n)] \<and>
           list_all quiet es"
  using pollTry_Normal_effects [OF assms] pollChat_Normal [OF assms]
  by (auto simp: pollInterval_def)

text \<open>
  C4 as stated fails: with a suggestion of 0 ms the timer is set to 5000 ms, and with a
  suggestion of 1000 ms to 1000 ms; no minimum gives both as the greater of the
  suggestion and the minimum.
\<close>

theorem poll_interval_counterexample:
  "effects (pollChat (steady (batch [] (Some 0))) exampleConfig exampleCommands 0 (running [])) =
     [ListMessages ''page2'', SetTimeout 5000] \<and>
   effects (pollChat (steady (batch [] (Some 1000))) exampleConfig exampleCommands 0 (running [])) =
     [ListMessages ''page2'', SetTimeout 1000] \<and>
   \<not> (\<exists>implementationMinimum::nat.
         max 0 implementationMinimum = 5000 \<and> max 1000 implementationMinimum = 1000)"
  by (simp add: run_defs)

text \<open>
  A poll answered with one command and a suggestion of 2000 ms.
\<close>

theorem poll_interval_after_success_witness:
  "\<exists>res es. listResult (steady (batch [says ''UC2'' ''Bob'' ''!help''] (Some 2000))) [ListMessages ''page2''] = Inr res \<and>
      effects (pollChat (steady (batch [says ''UC2'' ''Bob'' ''!help''] (Some 2000))) exampleConfig exampleCommands 0 (running [''Bob''])) =
        ListMessages ''page2'' # es @ [SetTimeout (case data_pollingIntervalMillis res of None \<Rightarrow> 5000 | Some n \<Rightarrow> if n = 0 then 5000 else n)] \<and> list_all quiet es"
proof -
  have t: "pollTry (steady (batch [says ''UC2'' ''Bob'' ''!help''] (Some 2000))) exampleConfig exampleCommands 0 (running [''Bob'']) =
     (Normal, \<lparr>participants = [''Bob''], nextPageToken = Some ''page3'', firstRun = False,
        effects = [ListMessages ''page2'', LogInfo ''Bob: !help'',
          Fetch RelayStep ''https://discord.example/hook'' ''Bob'' None ''!help'',
          Insert CommandStep ''Commands: !help, !echo'', SetTimeout 2000]\<rparr>)"
    by (simp add: run_defs fillArgs_def renderReply_def replace_str_def)
  show ?thesis
    using poll_interval_after_success [OF t] by (simp add: running_def pageToken_def)
qed

subsection \<open>The relay step\<close>

lemma processItems_append:
  "processItems env cfg commands startTime (xs @ ys) b =
     andThen (processItems env cfg commands startTime xs) (processItems env cfg commands startTime ys) b"
proof (induction xs arbitrary: b)
  case Nil
  then show ?case by (simp add: andThen_def)
next
  case (Cons x xs)
  show ?case
    by (cases "processItem env cfg commands startTime x b")
       (simp add: andThen_def Cons.IH split: completion.splits)
qed

lemma sendToDiscord_enabled:
  "discordWebhook cfg = Some hook \<Longrightarrow> enable hook \<Longrightarrow> url hook \<noteq> [] \<Longrightarrow>
     sendToDiscord env cfg st user avatar message b =
       call env (Fetch st (url hook) user avatar message) b"
  by (simp add: sendToDiscord_def)

lemma processItem_relay_fails:
  assumes "discordWebhook cfg = Some hook" "enable hook" "url hook \<noteq> []"
      and "fails env (effects b @ [LogInfo (displayName item @ '': '' @ displayMessage item),
             Fetch RelayStep (url hook) (displayName item) (profileImageUrl item) (displayMessage item)]) = Some err"
  shows "processItem env cfg commands startTime item b =
           (Throw err, b\<lparr>effects := effects b @ [LogInfo (displayName item @ '': '' @ displayMessage item),
             Fetch RelayStep (url hook) (displayName item) (profileImageUrl item) (displayMessage item)]\<rparr>)"
  using assms
  by (simp add: processItem_def Let_def sendToDiscord_enabled call_def andThen_def emit_def)

lemma processItem_relay_first:
  assumes "discordWebhook cfg = Some hook" "enable hook" "url hook \<noteq> []"
      and "processItem env cfg commands startTime item b = (c, b')"
  shows "\<exists>es. effects b' = effects b @ [LogInfo (displayName item @ '': '' @ displayMessage item),
             Fetch RelayStep (url hook) (displayName item) (profileImageUrl item) (displayMessage item)] @ es
           \<and> list_all quiet es"
proof -
  let ?b0 = "emit (LogInfo (displayName item @ '': '' @ displayMessage item)) b"
  let ?f = "Fetch RelayStep (url hook) (displayName item) (profileImageUrl item) (displayMessage item)"
  let ?rest = "andThen (welcomeFirstTime env (displayName item))
              (if hasBadWord cfg (displayMessage item) then moderate env cfg (displayName item) (displayMessage item)
               else dispatch env commands startTime (displayName item) (displayMessage item))"
  have p: "andThen (call env ?f) ?rest ?b0 = (c, b')"
    using assms(4) unfolding processItem_def Let_def sendToDiscord_enabled [OF assms(1-3)] .
  have "inner (emit ?f ?b0) b'"
    using p
  proof (cases rule: andThen_cases)
    case (first err)
    then show ?thesis by (auto dest!: call_result)
  next
    case (second b1)
    from second(1) have b1: "b1 = emit ?f ?b0" by (auto dest!: call_result)
    show ?thesis
      using second(2) unfolding b1
      by (rule inner_andThen)
         (auto split: if_splits dest: inner_welcomeFirstTime inner_moderate inner_dispatch)
  qed
  then show ?thesis by (auto dest!: inner_effects)
qed

text \<open>
  C1, as amended. With the webhook enabled, take any message of a processed batch whose
  earlier messages were processed without an error. The events of its processing begin
  with the line of the log and the relay call, before any other call. If the relay call
  fails, nothing more is done for this message (no welcome check, no moderation check, no
  command dispatch) and nothing at all for the later messages of the batch: the poll
  ends in the \<^verbatim>\<open>catch\<close> block, which logs the error and sets the timer.
\<close>

theorem relay_first_and_failure_ends_batch:
  assumes "discordWebhook cfg = Some hook" and "enable hook" and "url hook \<noteq> []"
      and "\<not> firstRun b"
      and "listResult env (effects b @ [ListMessages (pageToken b)]) = Inr res"
      and "data_items res = earlier @ item # later"
      and "processItems env cfg commands startTime earlier (emit (ListMessages (pageToken b)) b) = (Normal, b1)"
  shows "(\<exists>es. effects (pollChat env cfg commands startTime b) =
            effects b1 @ [LogInfo (displayName item @ '': '' @ displayMessage item),
              Fetch RelayStep (url hook) (displayName item) (profileImageUrl item) (displayMessage item)] @ es) \<and>
         (\<forall>err. fails env (effects b1 @ [LogInfo (displayName item @ '': '' @ displayMessage item),
              Fetch RelayStep (url hook) (displayName item) (profileImageUrl item) (displayMessage item)]) = Some err \<longrightarrow>
            pollChat env cfg commands startTime b =
              b1\<lparr>effects := effects b1 @ [LogInfo (displayName item @ '': '' @ displayMessage item),
                Fetch RelayStep (url hook) (displayName item) (profileImageUrl item) (displayMessage item),
                LogError ''Polling error:'', SetTimeout (backoff err)]\<rparr>)"
proof
  let ?b0 = "emit (ListMessages (pageToken b)) b"
  let ?relay = "[LogInfo (displayName item @ '': '' @ displayMessage item),
              Fetch RelayStep (url hook) (displayName item) (profileImageUrl item) (displayMessage item)]"
  have items: "processItems env cfg commands startTime (data_items res) ?b0 =
                 andThen (processItem env cfg commands startTime item)
                   (processItems env cfg commands startTime later) b1"
    using assms(6,7) by (simp add: processItems_append andThen_def)
  have tr: "pollTry env cfg commands startTime b =
               andThen (processItems env cfg commands startTime (data_items res))
                 (\<lambda>b1. (Normal, emit (SetTimeout (pollInterval (data_pollingIntervalMillis res)))
                     (b1\<lparr>firstRun := False, nextPageToken := data_nextPageToken res\<rparr>))) ?b0"
    using assms(4,5) by (simp add: pollTry_def)
  show "\<forall>err. fails env (effects b1 @ ?relay) = Some err \<longrightarrow>
            pollChat env cfg commands startTime b =
              b1\<lparr>effects := effects b1 @ [LogInfo (displayName item @ '': '' @ displayMessage item),
                Fetch RelayStep (url hook) (displayName item) (profileImageUrl item) (displayMessage item),
                LogError ''Polling error:'', SetTimeout (backoff err)]\<rparr>"
  proof (intro allI impI)
    fix err assume "fails env (effects b1 @ ?relay) = Some err"
    from processItem_relay_fails [OF assms(1-3) this]
    have pi: "processItem env cfg commands startTime item b1 =
                (Throw err, b1\<lparr>effects := effects b1 @ ?relay\<rparr>)" .
    have "processItems env cfg commands startTime (data_items res) ?b0 =
                (Throw err, b1\<lparr>effects := effects b1 @ ?relay\<rparr>)"
      unfolding items by (simp add: andThen_def pi)
    then have "pollTry env cfg commands startTime b = (Throw err, b1\<lparr>effects := effects b1 @ ?relay\<rparr>)"
      unfolding tr by (simp add: andThen_def)
    from pollChat_Throw [OF this]
    show "pollChat env cfg commands startTime b =
              b1\<lparr>effects := effects b1 @ [LogInfo (displayName item @ '': '' @ displayMessage item),
                Fetch RelayStep (url hook) (displayName item) (profileImageUrl item) (displayMessage item),
                LogError ''Polling error:'', SetTimeout (backoff err)]\<rparr>"
      by (simp add: emit_def)
  qed
  obtain c b2 where it: "processItem env cfg commands startTime item b1 = (c, b2)"
    by (cases "processItem env cfg commands startTime item b1")
  from processItem_relay_first [OF assms(1-3) it]
  obtain es where es: "effects b2 = effects b1 @ ?relay @ es" by blast
  obtain c3 b3 where its: "processItems env cfg commands startTime (data_items res) ?b0 = (c3, b3)"
    by (cases "processItems env cfg commands startTime (data_items res) ?b0")
  have "\<exists>es. effects b3 = effects b1 @ ?relay @ es"
  proof (cases c)
    case (Throw err)
    then have "b3 = b2" using its it unfolding items by (simp add: andThen_def)
    then show ?thesis using es by simp
  next
    case Normal
    then have l: "processItems env cfg commands startTime later b2 = (c3, b3)"
      using its it unfolding items by (simp add: andThen_def)
    from inner_processItems [OF l] obtain es3 where "effects b3 = effects b2 @ es3"
      by (auto dest: inner_effects)
    then show ?thesis using es by simp
  qed
  then obtain es' where es': "effects b3 = effects b1 @ ?relay @ es'" by blast
  have "pollTry env cfg commands startTime b =
          (case c3 of Normal \<Rightarrow> (Normal, emit (SetTimeout (pollInterval (data_pollingIntervalMillis res)))
                     (b3\<lparr>firstRun := False, nextPageToken := data_nextPageToken res\<rparr>))
                  | Throw err \<Rightarrow> (Throw err, b3))"
    unfolding tr by (simp add: andThen_def its split: completion.splits)
  then show "\<exists>es. effects (pollChat env cfg commands startTime b) = effects b1 @ ?relay @ es"
    using es' by (cases c3) (simp_all add: pollChat_def)
qed

text \<open>
  C1 as stated fails: the webhook cannot be reached, Bob is a first-time chatter whose
  message holds a banned word, and Ann sends a command after him. Bob gets neither a
  welcome nor a warning, and Ann's message is not processed.
\<close>

theorem relay_failure_counterexample:
  "pollChat (unreachable (batch [says ''UC1'' ''Bob'' ''darn'', says ''UC2'' ''Ann'' ''!help''] None))
      exampleConfig exampleCommands 0 (running []) =
     \<lparr>participants = [], nextPageToken = Some ''page2'', firstRun = False,
      effects = [ListMessages ''page2'', LogInfo ''Bob: darn'',
        Fetch RelayStep ''https://discord.example/hook'' ''Bob'' None ''darn'',
        LogError ''Polling error:'', SetTimeout 10000]\<rparr>"
  by (simp add: run_defs)

text \<open>
  The same batch, through the theorem.
\<close>

theorem relay_first_and_failure_ends_batch_witness:
  "(\<exists>es. effects (pollChat (unreachable (batch [says ''UC1'' ''Bob'' ''darn'', says ''UC2'' ''Ann'' ''!help''] None))
      exampleConfig exampleCommands 0 (running [])) =
      [ListMessages ''page2'', LogInfo ''Bob: darn'',
        Fetch RelayStep ''https://discord.example/hook'' ''Bob'' None ''darn''] @ es) \<and>
   pollChat (unreachable (batch [says ''UC1'' ''Bob'' ''darn'', says ''UC2'' ''Ann'' ''!help''] None))
      exampleConfig exampleCommands 0 (running []) =
     \<lparr>participants = [], nextPageToken = Some ''page2'', firstRun = False,
      effects = [ListMessages ''page2'', LogInfo ''Bob: darn'',
        Fetch RelayStep ''https://discord.example/hook'' ''Bob'' None ''darn'',
        LogError ''Polling error:'', SetTimeout 10000]\<rparr>"
proof -
  let ?w = "unreachable (batch [says ''UC1'' ''Bob'' ''darn'', says ''UC2'' ''Ann'' ''!help''] None)"
  let ?hook = "\<lparr>enable = True, url = ''https://discord.example/hook''\<rparr>"
  let ?res = "\<lparr>data_items = [says ''UC1'' ''Bob'' ''darn'', says ''UC2'' ''Ann'' ''!help''],
               data_nextPageToken = Some ''page3'', data_pollingIntervalMillis = None\<rparr>"
  have 1: "discordWebhook exampleConfig = Some ?hook" by (simp add: exampleConfig_def)
  have 2: "enable ?hook" "url ?hook \<noteq> []" by simp_all
  have 3: "\<not> firstRun (running [])" by (simp add: running_def)
  have 4: "listResult ?w (effects (running []) @ [ListMessages (pageToken (running []))]) = Inr ?res"
    by (simp add: unreachable_def batch_def)
  have 5: "data_items ?res = [] @ says ''UC1'' ''Bob'' ''darn'' # [says ''UC2'' ''Ann'' ''!help'']" by simp
  have 6: "processItems ?w exampleConfig exampleCommands 0 [] (emit (ListMessages (pageToken (running []))) (running [])) =
             (Normal, (running [])\<lparr>effects := [ListMessages ''page2'']\<rparr>)"
    by (simp add: running_def pageToken_def emit_def)
  have 7: "fails ?w (effects ((running [])\<lparr>effects := [ListMessages ''page2'']\<rparr>) @
             [LogInfo (displayName (says ''UC1'' ''Bob'' ''darn'') @ '': '' @ displayMessage (says ''UC1'' ''Bob'' ''darn'')),
              Fetch RelayStep (url ?hook) (displayName (says ''UC1'' ''Bob'' ''darn''))
                (profileImageUrl (says ''UC1'' ''Bob'' ''darn'')) (displayMessage (says ''UC1'' ''Bob'' ''darn''))]) =
           Some ''fetch failed''"
    by (simp add: unreachable_def)
  show ?thesis
    using relay_first_and_failure_ends_batch [OF 1 2 3 4 5 6] 7
    by (simp add: running_def says_def backoff_def)
qed

subsection \<open>Welcoming\<close>

lemma welcomeText_inject [simp]: "welcomeText u = welcomeText v \<longleftrightarrow> u = v"
  by (simp add: welcomeText_def)

lemma welcomed_emit:
  "welcomed user (emit e b) =
     welcomed user b + (if e = Insert WelcomeStep (welcomeText user) then 1 else 0)"
  by (simp add: welcomed_def)

lemma welcomed_participants [simp]: "welcomed user (b\<lparr>participants := ps\<rparr>) = welcomed user b"
  by (simp add: welcomed_def)

lemma welcomeOnce_emit:
  "welcomeOnce loaded user b \<Longrightarrow> e \<noteq> Insert WelcomeStep (welcomeText user) \<Longrightarrow>
     welcomeOnce loaded user (emit e b)"
  by (simp add: welcomeOnce_def welcomed_emit)

lemma welcomeOnce_call:
  "welcomeOnce loaded user b \<Longrightarrow> e \<noteq> Insert WelcomeStep (welcomeText user) \<Longrightarrow>
     call env e b = (c, b') \<Longrightarrow> welcomeOnce loaded user b'"
  by (auto dest!: call_result simp: welcomeOnce_emit)

lemma invariant_andThen:
  assumes "andThen f g b = (c, b')" and "P b"
      and "\<And>c1 b1. f b = (c1, b1) \<Longrightarrow> P b1"
      and "\<And>b1 c2 b2. P b1 \<Longrightarrow> g b1 = (c2, b2) \<Longrightarrow> P b2"
  shows "P b'"
  using assms(1)
proof (cases rule: andThen_cases)
  case (first err) then show ?thesis using assms(3) by blast
next
  case (second b1) then show ?thesis using assms(3,4) by blast
qed

lemma welcomeOnce_sendToDiscord:
  "welcomeOnce loaded user b \<Longrightarrow> sendToDiscord env cfg st name avatar message b = (c, b') \<Longrightarrow>
     welcomeOnce loaded user b'"
  by (auto simp: sendToDiscord_def split: option.splits if_splits elim: welcomeOnce_call [rotated 2])

lemma welcomeOnce_saveParticipants:
  "welcomeOnce loaded user b \<Longrightarrow> welcomeOnce loaded user (saveParticipants env b)"
  by (auto simp: saveParticipants_def welcomeOnce_emit split: prod.splits completion.splits
           dest!: call_result)

lemma welcomeOnce_welcomeFirstTime:
  assumes "welcomeOnce loaded user b" and "welcomeFirstTime env name b = (c, b')"
  shows "welcomeOnce loaded user b'"
proof (cases "name \<in> set (participants b)")
  case True
  then show ?thesis using assms by (simp add: welcomeFirstTime_def)
next
  case False
  let ?b1 = "b\<lparr>participants := participants b @ [name]\<rparr>"
  let ?b2 = "saveParticipants env ?b1"
  have b': "b' = emit (Insert WelcomeStep (welcomeText name)) ?b2"
    using assms(2) False by (auto simp: welcomeFirstTime_def sendMessage_def dest!: call_result)
  have p2: "participants ?b2 = participants b @ [name]"
    by (auto simp: saveParticipants_def split: prod.splits completion.splits dest!: call_result)
  have w2: "welcomed user ?b2 = welcomed user b"
    by (auto simp: saveParticipants_def welcomed_emit split: prod.splits completion.splits dest!: call_result)
  show ?thesis
    using assms(1) False unfolding b' welcomeOnce_def
    by (auto simp: welcomed_emit p2 w2)
qed

lemma welcomeOnce_moderate:
  assumes w: "welcomeOnce loaded user b" and m: "moderate env cfg name message b = (c, b')"
  shows "welcomeOnce loaded user b'"
  using m [unfolded moderate_def]
proof (rule invariant_andThen)
  show "welcomeOnce loaded user b" by fact
next
  fix c1 b1 assume "sendMessage env ModerationStep (warningText name) b = (c1, b1)"
  then show "welcomeOnce loaded user b1"
    using w by (auto simp: sendMessage_def elim: welcomeOnce_call [rotated 2])
next
  fix b1 c2 b2
  assume "welcomeOnce loaded user b1"
     and "sendToDiscord env cfg ModerationStep ''Bot'' None (noticeText name message) b1 = (c2, b2)"
  then show "welcomeOnce loaded user b2" by (rule welcomeOnce_sendToDiscord)
qed

lemma welcomeOnce_dispatch:
  "welcomeOnce loaded user b \<Longrightarrow> dispatch env commands startTime name message b = (c, b') \<Longrightarrow>
     welcomeOnce loaded user b'"
  by (auto simp: dispatch_def sendMessage_def split: property.splits elim: welcomeOnce_call [rotated 2])

lemma welcomeOnce_processItem:
  assumes w: "welcomeOnce loaded user b" and p: "processItem env cfg commands startTime item b = (c, b')"
  shows "welcomeOnce loaded user b'"
  using p [unfolded processItem_def Let_def]
proof (rule invariant_andThen)
  show "welcomeOnce loaded user (emit (LogInfo (displayName item @ '': '' @ displayMessage item)) b)"
    using w by (simp add: welcomeOnce_emit)
next
  fix c1 b1
  assume "sendToDiscord env cfg RelayStep (displayName item) (profileImageUrl item) (displayMessage item)
            (emit (LogInfo (displayName item @ '': '' @ displayMessage item)) b) = (c1, b1)"
  then show "welcomeOnce loaded user b1"
    using w by (auto simp: welcomeOnce_emit elim: welcomeOnce_sendToDiscord [rotated])
next
  fix b1 c2 b2
  assume w1: "welcomeOnce loaded user b1"
     and r: "andThen (welcomeFirstTime env (displayName item))
              (if hasBadWord cfg (displayMessage item)
               then moderate env cfg (displayName item) (displayMessage item)
               else dispatch env commands startTime (displayName item) (displayMessage item)) b1 = (c2, b2)"
  from r show "welcomeOnce loaded user b2"
  proof (rule invariant_andThen)
    show "welcomeOnce loaded user b1" by fact
  next
    fix c1 b3 assume "welcomeFirstTime env (displayName item) b1 = (c1, b3)"
    with w1 show "welcomeOnce loaded user b3" by (rule welcomeOnce_welcomeFirstTime)
  next
    fix b3 c4 b4
    assume "welcomeOnce loaded user b3"
       and "(if hasBadWord cfg (displayMessage item)
               then moderate env cfg (displayName item) (displayMessage item)
               else dispatch env commands startTime (displayName item) (displayMessage item)) b3 = (c4, b4)"
    then show "welcomeOnce loaded user b4"
      by (auto split: if_splits elim: welcomeOnce_moderate welcomeOnce_dispatch)
  qed
qed

lemma welcomeOnce_processItems:
  "welcomeOnce loaded user b \<Longrightarrow> processItems env cfg commands startTime its b = (c, b') \<Longrightarrow>
     welcomeOnce loaded user b'"
proof (induction its arbitrary: b c b')
  case Nil
  then show ?case by simp
next
  case (Cons item rest)
  from Cons.prems(2) [unfolded processItems.simps] show ?case
  proof (rule invariant_andThen)
    show "welcomeOnce loaded user b" by fact
  next
    fix c1 b1 assume "processItem env cfg commands startTime item b = (c1, b1)"
    with Cons.prems(1) show "welcomeOnce loaded user b1" by (rule welcomeOnce_processItem)
  next
    fix b1 c2 b2
    assume "welcomeOnce loaded user b1" "processItems env cfg commands startTime rest b1 = (c2, b2)"
    then show "welcomeOnce loaded user b2" by (rule Cons.IH)
  qed
qed

lemma welcomeOnce_frame:
  "welcomeOnce loaded user (b\<lparr>firstRun := f, nextPageToken := t\<rparr>) = welcomeOnce loaded user b"
  by (simp add: welcomeOnce_def welcomed_def)

lemma welcomeOnce_pollChat:
  assumes w: "welcomeOnce loaded user b"
  shows "welcomeOnce loaded user (pollChat env cfg commands startTime b)"
proof -
  let ?b0 = "emit (ListMessages (pageToken b)) b"
  have w0: "welcomeOnce loaded user ?b0" using w by (simp add: welcomeOnce_emit)
  show ?thesis
  proof (cases "listResult env (effects ?b0)")
    case (Inl err)
    then show ?thesis using w0 by (simp add: pollChat_def pollTry_def welcomeOnce_emit)
  next
    case (Inr res)
    obtain c b1 where its: "(if \<not> firstRun ?b0 then processItems env cfg commands startTime (data_items res)
                 else (\<lambda>b1. (Normal, b1))) ?b0 = (c, b1)"
      by (cases "(if \<not> firstRun ?b0 then processItems env cfg commands startTime (data_items res)
                 else (\<lambda>b1. (Normal, b1))) ?b0")
    then have w1: "welcomeOnce loaded user b1"
      using w0 by (auto split: if_splits elim: welcomeOnce_processItems [rotated])
    have "pollTry env cfg commands startTime b =
            (case c of Normal \<Rightarrow> (Normal, emit (SetTimeout (pollInterval (data_pollingIntervalMillis res)))
                     (b1\<lparr>firstRun := False, nextPageToken := data_nextPageToken res\<rparr>))
             | Throw err \<Rightarrow> (Throw err, b1))"
      using Inr its by (simp add: pollTry_def Let_def andThen_def split: completion.splits)
    then show ?thesis
      using w1 by (cases c) (simp_all add: pollChat_def welcomeOnce_emit welcomeOnce_frame)
  qed
qed

lemma welcomeOnce_polls:
  "welcomeOnce loaded user b \<Longrightarrow> welcomeOnce loaded user (polls n env cfg commands startTime b)"
  by (induction n arbitrary: b) (simp_all add: welcomeOnce_pollChat)

lemma welcomeOnce_startup: "welcomeOnce loaded user (startup loaded)"
  by (simp add: welcomeOnce_def welcomed_def startup_def)

lemma saveParticipants_eq:
  "saveParticipants env b =
     b\<lparr>effects := effects b @ WriteFile (participants b) #
          (case fails env (effects b @ [WriteFile (participants b)]) of
             None \<Rightarrow> []
           | Some err \<Rightarrow> [LogError (''Failed to save participants: '' @ err)])\<rparr>"
  by (simp add: saveParticipants_def call_def emit_def split: option.splits)

lemma sendToDiscord_participants:
  "sendToDiscord env cfg st name avatar message b = (c, b') \<Longrightarrow> participants b' = participants b"
  by (auto simp: sendToDiscord_def split: option.splits if_splits dest!: call_result)

text \<open>
  C2, as amended. The store holds display names; the channel id of the author is never
  read. Take a processed message whose relay step completed. If the display name is in
  the store, processing goes straight on to moderation and command dispatch. If it is
  not, the name is added to the store, the store is written to the file (a failed write
  is logged and otherwise ignored), and one welcome reply that holds the display name is
  sent; when that send succeeds, processing of the same message goes on to moderation and
  command dispatch, and when it fails the error ends the processing. Over any number of
  polls since startup a display name is sent at most one welcome reply, and none if it was
  loaded from the file.
\<close>

theorem welcome_by_display_name:
  "(sendToDiscord env cfg RelayStep (displayName item) (profileImageUrl item) (displayMessage item)
        (emit (LogInfo (displayName item @ '': '' @ displayMessage item)) b) = (Normal, b1) \<longrightarrow>
      (let continue = (if hasBadWord cfg (displayMessage item)
                       then moderate env cfg (displayName item) (displayMessage item)
                       else dispatch env commands startTime (displayName item) (displayMessage item));
           ps = participants b @ [displayName item];
           saved = WriteFile ps #
                     (case fails env (effects b1 @ [WriteFile ps]) of
                        None \<Rightarrow> []
                      | Some err \<Rightarrow> [LogError (''Failed to save participants: '' @ err)]);
           b2 = b1\<lparr>participants := ps,
                   effects := effects b1 @ saved @
                                [Insert WelcomeStep (welcomeText (displayName item))]\<rparr>
       in processItem env cfg commands startTime item b =
            (if displayName item \<in> set (participants b) then continue b1
             else (case fails env (effects b2) of
                     None \<Rightarrow> continue b2
                   | Some err \<Rightarrow> (Throw err, b2))))) \<and>
   count_list (effects (polls n env cfg commands startTime (startup loaded)))
     (Insert WelcomeStep (welcomeText user)) \<le> 1 \<and>
   (user \<in> set loaded \<longrightarrow>
      count_list (effects (polls n env cfg commands startTime (startup loaded)))
        (Insert WelcomeStep (welcomeText user)) = 0)"
proof (intro conjI impI)
  assume r: "sendToDiscord env cfg RelayStep (displayName item) (profileImageUrl item) (displayMessage item)
        (emit (LogInfo (displayName item @ '': '' @ displayMessage item)) b) = (Normal, b1)"
  from sendToDiscord_participants [OF r] have p1: "participants b1 = participants b" by simp
  show "let continue = (if hasBadWord cfg (displayMessage item)
                       then moderate env cfg (displayName item) (displayMessage item)
                       else dispatch env commands startTime (displayName item) (displayMessage item));
           ps = participants b @ [displayName item];
           saved = WriteFile ps #
                     (case fails env (effects b1 @ [WriteFile ps]) of
                        None \<Rightarrow> []
                      | Some err \<Rightarrow> [LogError (''Failed to save participants: '' @ err)]);
           b2 = b1\<lparr>participants := ps,
                   effects := effects b1 @ saved @
                                [Insert WelcomeStep (welcomeText (displayName item))]\<rparr>
       in processItem env cfg commands startTime item b =
            (if displayName item \<in> set (participants b) then continue b1
             else (case fails env (effects b2) of
                     None \<Rightarrow> continue b2
                   | Some err \<Rightarrow> (Throw err, b2)))"
  proof -
    have "processItem env cfg commands startTime item b =
            andThen (welcomeFirstTime env (displayName item))
              (if hasBadWord cfg (displayMessage item)
               then moderate env cfg (displayName item) (displayMessage item)
               else dispatch env commands startTime (displayName item) (displayMessage item)) b1"
      using r by (simp add: processItem_def Let_def andThen_def)
    then show ?thesis
      by (simp add: Let_def andThen_def welcomeFirstTime_def p1 sendMessage_def call_def emit_def
            saveParticipants_eq split: option.splits)
  qed
next
  have w: "welcomeOnce loaded user (polls n env cfg commands startTime (startup loaded))"
    by (rule welcomeOnce_polls [OF welcomeOnce_startup])
  then show "count_list (effects (polls n env cfg commands startTime (startup loaded)))
     (Insert WelcomeStep (welcomeText user)) \<le> 1"
    by (simp add: welcomeOnce_def welcomed_def split: if_splits)
  assume "user \<in> set loaded"
  with w show "count_list (effects (polls n env cfg commands startTime (startup loaded)))
        (Insert WelcomeStep (welcomeText user)) = 0"
    by (simp add: welcomeOnce_def welcomed_def)
qed

text \<open>
  C2 as stated fails. The author with channel id \<open>UC2\<close> is not in the store, but chats
  under a display name that is: no welcome is sent and nothing is stored. The author with
  channel id \<open>UC1\<close> chats under two display names: two welcome replies are sent.
\<close>

theorem welcome_counterexample:
  "''UC2'' \<notin> set (participants (running [''Ann''])) \<and>
   pollChat (steady (batch [says ''UC2'' ''Ann'' ''hello''] None)) exampleConfig exampleCommands 0
       (running [''Ann'']) =
     \<lparr>participants = [''Ann''], nextPageToken = Some ''page3'', firstRun = False,
      effects = [ListMessages ''page2'', LogInfo ''Ann: hello'',
        Fetch RelayStep ''https://discord.example/hook'' ''Ann'' None ''hello'',
        SetTimeout 5000]\<rparr> \<and>
   pollChat (steady (batch [says ''UC1'' ''Ann'' ''hello'', says ''UC1'' ''Annie'' ''hello''] None))
       exampleConfig exampleCommands 0 (running []) =
     \<lparr>participants = [''Ann'', ''Annie''], nextPageToken = Some ''page3'', firstRun = False,
      effects = [ListMessages ''page2'', LogInfo ''Ann: hello'',
        Fetch RelayStep ''https://discord.example/hook'' ''Ann'' None ''hello'',
        WriteFile [''Ann''], Insert WelcomeStep (welcomeText ''Ann''),
        LogInfo ''Annie: hello'',
        Fetch RelayStep ''https://discord.example/hook'' ''Annie'' None ''hello'',
        WriteFile [''Ann'', ''Annie''], Insert WelcomeStep (welcomeText ''Annie''),
        SetTimeout 5000]\<rparr>"
  by (simp add: run_defs)

text \<open>
  Bob chats for the first time; Ann was loaded from the file.
\<close>

theorem welcome_by_display_name_witness:
  "processItem (steady (batch [says ''UC1'' ''Bob'' ''!help''] None)) exampleConfig exampleCommands 0
      (says ''UC1'' ''Bob'' ''!help'') (running [''Ann'']) =
     (Normal, \<lparr>participants = [''Ann'', ''Bob''], nextPageToken = Some ''page2'', firstRun = False,
        effects = [LogInfo ''Bob: !help'',
          Fetch RelayStep ''https://discord.example/hook'' ''Bob'' None ''!help'',
          WriteFile [''Ann'', ''Bob''], Insert WelcomeStep (welcomeText ''Bob''),
          Insert CommandStep ''Commands: !help, !echo'']\<rparr>) \<and>
   count_list (effects (polls 3 (steady (batch [says ''UC1'' ''Bob'' ''!help''] None)) exampleConfig
        exampleCommands 0 (startup [''Ann''])))
     (Insert WelcomeStep (welcomeText ''Bob'')) \<le> 1 \<and>
   count_list (effects (polls 3 (steady (batch [says ''UC1'' ''Bob'' ''!help''] None)) exampleConfig
        exampleCommands 0 (startup [''Ann''])))
     (Insert WelcomeStep (welcomeText ''Ann'')) = 0"
proof -
  let ?w = "steady (batch [says ''UC1'' ''Bob'' ''!help''] None)"
  let ?b1 = "\<lparr>participants = [''Ann''], nextPageToken = Some ''page2'', firstRun = False,
        effects = [LogInfo ''Bob: !help'',
          Fetch RelayStep ''https://discord.example/hook'' ''Bob'' None ''!help'']\<rparr>"
  have r: "sendToDiscord ?w exampleConfig RelayStep (displayName (says ''UC1'' ''Bob'' ''!help''))
             (profileImageUrl (says ''UC1'' ''Bob'' ''!help'')) (displayMessage (says ''UC1'' ''Bob'' ''!help''))
             (emit (LogInfo (displayName (says ''UC1'' ''Bob'' ''!help'') @ '': '' @
                displayMessage (says ''UC1'' ''Bob'' ''!help''))) (running [''Ann''])) = (Normal, ?b1)"
    by (simp add: run_defs)
  have a: "''Ann'' \<in> set [''Ann'']" by simp
  show ?thesis
    using welcome_by_display_name [where env = ?w and cfg = exampleConfig and item = "says ''UC1'' ''Bob'' ''!help''"
        and b = "running [''Ann'']" and ?b1.0 = ?b1 and commands = exampleCommands and startTime = 0
        and n = 3 and loaded = "[''Ann'']" and user = "''Bob''"]
      welcome_by_display_name [where env = ?w and cfg = exampleConfig and item = "says ''UC1'' ''Bob'' ''!help''"
        and b = "running [''Ann'']" and ?b1.0 = ?b1 and commands = exampleCommands and startTime = 0
        and n = 3 and loaded = "[''Ann'']" and user = "''Ann''"] r a
    by (simp add: run_defs fillArgs_def renderReply_def replace_str_def)
qed

subsection \<open>Placeholders\<close>

lemma indexOf_None: "indexOf s pat = None \<longleftrightarrow> \<not> sublist pat s"
  by (induction s) (auto simp: sublist_Cons_right)

lemma prefix_of_long:
  assumes "prefix p (u @ v)" and "length p \<le> length u"
  shows "prefix p u"
  using assms by (metis prefix_length_prefix prefix_order.dual_order.refl prefixI append_prefixD prefix_append)

lemma indexOf_first:
  assumes "pat \<noteq> []" and "\<not> sublist pat (a @ butlast pat)"
  shows "indexOf (a @ pat @ c) pat = Some (length a)"
  using assms(2)
proof (induction a)
  case Nil
  then show ?case using assms(1) by (cases pat) simp_all
next
  case (Cons x a)
  have np: "\<not> prefix pat (x # a @ pat @ c)"
  proof
    assume p: "prefix pat (x # a @ pat @ c)"
    have "x # a @ pat @ c = (x # a @ butlast pat) @ (last pat # c)"
      using assms(1) by simp
    with p have "prefix pat ((x # a @ butlast pat) @ (last pat # c))" by simp
    moreover have "length pat \<le> length (x # a @ butlast pat)" by simp
    ultimately have "prefix pat (x # a @ butlast pat)" by (rule prefix_of_long)
    then have "sublist pat ((x # a) @ butlast pat)" by (simp add: prefix_imp_sublist)
    with Cons.prems show False by simp
  qed
  have "\<not> sublist pat (a @ butlast pat)"
    using Cons.prems by (simp add: sublist_Cons_right)
  with Cons.IH have "indexOf (a @ pat @ c) pat = Some (length a)" by simp
  with np show ?case by simp
qed

lemma getSubstitution_plain:
  "CHR ''$'' \<notin> set repl \<Longrightarrow> getSubstitution matched preceding following repl = repl"
  by (induction matched preceding following repl rule: getSubstitution.induct) auto

lemma replace_str_absent: "\<not> sublist pat s \<Longrightarrow> replace_str s pat repl = s"
  by (simp add: replace_str_def indexOf_None [symmetric])

lemma replace_str_first:
  assumes "pat \<noteq> []" and "\<not> sublist pat (a @ butlast pat)"
  shows "replace_str (a @ pat @ c) pat repl = a @ getSubstitution pat a c repl @ c"
  by (simp add: replace_str_def indexOf_first [OF assms])

lemma digitChar_not_dollar: "d < 10 \<Longrightarrow> digitChar d \<noteq> CHR ''$''"
proof -
  assume "d < 10"
  then have "digitChar d \<in> set ''0123456789''"
    unfolding digitChar_def by (intro nth_mem) simp
  then show ?thesis by auto
qed

lemma digits_no_dollar: "CHR ''$'' \<notin> set (digits n)"
proof (induction n rule: digits.induct)
  case (1 n)
  show ?case
  proof (cases "n < 10")
    case True
    then show ?thesis using digitChar_not_dollar [of n] by (simp add: digits.simps [of n])
  next
    case False
    then show ?thesis
      using 1 digitChar_not_dollar [of "n mod 10"] by (simp add: digits.simps [of n])
  qed
qed

lemma formatUptime_no_dollar: "CHR ''$'' \<notin> set (formatUptime now startTime)"
  by (simp add: formatUptime_def Let_def numberToString_def digits_no_dollar)

lemma formatUptime_example: "formatUptime 3725000 0 = ''1h 2m 5s''"
  by (simp add: formatUptime_def Let_def signed_modulo_int_def numberToString_def digits_one
        digitChar_def)

text \<open>
  C10, as amended. The two placeholders are substituted one after the other, each at
  its first occurrence only. A template without \<open>{user}\<close> is left as it is; otherwise
  the text before the first \<open>{user}\<close> and all the text after it, further occurrences
  included, are kept, and the display name is put in between, as a replacement pattern
  (it is put in unchanged when it holds no dollar sign). The first occurrence of
  \<open>{uptime}\<close> is then sought in the text so obtained, not in the template: if there is
  none that text is the reply, otherwise the uptime replaces that occurrence and the
  text before and after it, further occurrences included, is kept.
\<close>

theorem renderReply_first_occurrences:
  "(\<not> sublist ''{user}'' template \<longrightarrow> replace_str template ''{user}'' user = template) \<and>
   (template = a @ ''{user}'' @ c \<and> \<not> sublist ''{user}'' (a @ ''{user'') \<longrightarrow>
      replace_str template ''{user}'' user = a @ getSubstitution ''{user}'' a c user @ c) \<and>
   (CHR ''$'' \<notin> set user \<longrightarrow> getSubstitution ''{user}'' a c user = user) \<and>
   (\<not> sublist ''{uptime}'' (replace_str template ''{user}'' user) \<longrightarrow>
      renderReply template user (formatUptime now startTime) = replace_str template ''{user}'' user) \<and>
   (replace_str template ''{user}'' user = a' @ ''{uptime}'' @ c' \<and>
    \<not> sublist ''{uptime}'' (a' @ ''{uptime'') \<longrightarrow>
      renderReply template user (formatUptime now startTime) = a' @ formatUptime now startTime @ c')"
proof (intro conjI impI)
  assume "\<not> sublist ''{user}'' template"
  then show "replace_str template ''{user}'' user = template" by (rule replace_str_absent)
next
  assume "template = a @ ''{user}'' @ c \<and> \<not> sublist ''{user}'' (a @ ''{user'')"
  then show "replace_str template ''{user}'' user = a @ getSubstitution ''{user}'' a c user @ c"
    using replace_str_first [of "''{user}''" a c user] by simp
next
  assume "CHR ''$'' \<notin> set user"
  then show "getSubstitution ''{user}'' a c user = user" by (rule getSubstitution_plain)
next
  assume "\<not> sublist ''{uptime}'' (replace_str template ''{user}'' user)"
  then show "renderReply template user (formatUptime now startTime) = replace_str template ''{user}'' user"
    unfolding renderReply_def by (rule replace_str_absent)
next
  assume h: "replace_str template ''{user}'' user = a' @ ''{uptime}'' @ c' \<and>
             \<not> sublist ''{uptime}'' (a' @ ''{uptime'')"
  then have "replace_str (a' @ ''{uptime}'' @ c') ''{uptime}'' (formatUptime now startTime) =
               a' @ getSubstitution ''{uptime}'' a' c' (formatUptime now startTime) @ c'"
    using replace_str_first [of "''{uptime}''" a' c' "formatUptime now startTime"] by simp
  then show "renderReply template user (formatUptime now startTime) = a' @ formatUptime now startTime @ c'"
    using h by (simp add: renderReply_def getSubstitution_plain [OF formatUptime_no_dollar])
qed

text \<open>
  C10 as stated fails: an author whose display name is \<open>{uptime}\<close> calls a command
  whose template has \<open>{user}\<close> before \<open>{uptime}\<close>. The uptime lands where the
  display name was put, and the first \<open>{uptime}\<close> of the template stays in the reply.
\<close>

theorem renderReply_counterexample:
  "pollChat (steady (batch [says ''UC1'' ''{uptime}'' ''!uptime''] None)) exampleConfig exampleCommands 0
       (running [''{uptime}'']) =
     \<lparr>participants = [''{uptime}''], nextPageToken = Some ''page3'', firstRun = False,
      effects = [ListMessages ''page2'', LogInfo ''{uptime}: !uptime'',
        Fetch RelayStep ''https://discord.example/hook'' ''{uptime}'' None ''!uptime'',
        Insert CommandStep ''1h 2m 5s, the stream has been live for {uptime}'',
        SetTimeout 5000]\<rparr>"
  by (simp add: run_defs fillArgs_def renderReply_def replace_str_def formatUptime_example)

text \<open>
  A template that holds each placeholder twice.
\<close>

theorem renderReply_first_occurrences_witness:
  "renderReply ''Hi {user}! {user}, we are live since {uptime} ({uptime})'' ''Ann''
      (formatUptime 3725000 0) =
     ''Hi Ann! {user}, we are live since 1h 2m 5s ({uptime})''"
proof -
  let ?t = "''Hi {user}! {user}, we are live since {uptime} ({uptime})''"
  let ?c = "''! {user}, we are live since {uptime} ({uptime})''"
  note inst = renderReply_first_occurrences [where template = ?t and user = "''Ann''"
        and a = "''Hi ''" and c = ?c
        and a' = "''Hi Ann! {user}, we are live since ''" and c' = "'' ({uptime})''"
        and now = 3725000 and startTime = 0]
  have 1: "?t = ''Hi '' @ ''{user}'' @ ?c \<and> \<not> sublist ''{user}'' (''Hi '' @ ''{user'')"
    by (simp add: str_includes_sublist [symmetric])
  have 2: "CHR ''$'' \<notin> set ''Ann''" by simp
  have "replace_str ?t ''{user}'' ''Ann'' = ''Hi '' @ getSubstitution ''{user}'' ''Hi '' ?c ''Ann'' @ ?c"
    by (rule mp [OF inst [THEN conjunct2, THEN conjunct1] 1])
  moreover have "getSubstitution ''{user}'' ''Hi '' ?c ''Ann'' = ''Ann''"
    by (rule mp [OF inst [THEN conjunct2, THEN conjunct2, THEN conjunct1] 2])
  ultimately have s1: "replace_str ?t ''{user}'' ''Ann'' =
      ''Hi Ann! {user}, we are live since '' @ ''{uptime}'' @ '' ({uptime})''"
    by simp
  have 3: "\<not> sublist ''{uptime}'' (''Hi Ann! {user}, we are live since '' @ ''{uptime'')"
    by (simp add: str_includes_sublist [symmetric])
  have "renderReply ?t ''Ann'' (formatUptime 3725000 0) =
          ''Hi Ann! {user}, we are live since '' @ formatUptime 3725000 0 @ '' ({uptime})''"
    by (rule mp [OF inst [THEN conjunct2, THEN conjunct2, THEN conjunct2, THEN conjunct2]
          conjI [OF s1 3]])
  then show ?thesis by (simp add: formatUptime_example)
qed

subsection \<open>Command lookup and arguments\<close>

lemma dispatch_no_key:
  "commands (toLowerCase message) = None \<Longrightarrow> toLowerCase message \<noteq> ''constructor'' \<Longrightarrow>
   toLowerCase message \<noteq> ''__proto__'' \<Longrightarrow>
     dispatch env commands startTime user message b = (Normal, b)"
  by (simp add: dispatch_def getProperty_def)

lemma split_sp_not_Nil [simp]: "split_sp s \<noteq> []"
  by (induction s) (auto split: list.splits)

lemma split_sp_no_space: "CHR '' '' \<notin> set w \<Longrightarrow> split_sp w = [w]"
  by (induction w) auto

lemma split_sp_first_space:
  "CHR '' '' \<notin> set w \<Longrightarrow> split_sp (w @ CHR '' '' # r) = w # split_sp r"
  by (induction w) auto

lemma join_split_sp: "join_sp (split_sp s) = s"
proof (induction s)
  case Nil
  then show ?case by simp
next
  case (Cons c s)
  obtain p ps where ps: "split_sp s = p # ps" by (cases "split_sp s") simp_all
  show ?case
  proof (cases "c = CHR '' ''")
    case True
    then show ?thesis using Cons ps by simp
  next
    case False
    then show ?thesis using Cons ps by (cases ps) simp_all
  qed
qed

lemma args_after_first_space:
  "CHR '' '' \<notin> set w \<Longrightarrow> join_sp (drop 1 (split_sp (w @ CHR '' '' # r))) = r"
  "CHR '' '' \<notin> set w \<Longrightarrow> join_sp (drop 1 (split_sp w)) = []"
  by (simp_all add: split_sp_first_space split_sp_no_space join_split_sp)

lemma loadCommands_example:
  "loadCommands exampleYaml =
     [''!help'' \<mapsto> \<lparr>response = ''Commands: !help, !echo'', description = [], aliases = []\<rparr>,
      ''!echo'' \<mapsto> \<lparr>response = ''You said: {args}'', description = [], aliases = [''!Say'']\<rparr>,
      ''!say'' \<mapsto> \<lparr>response = ''You said: {args}'', description = [], aliases = [''!Say'']\<rparr>]"
  by (simp add: loadCommands_def exampleYaml_def addCommand_def Let_def toLowerCase_def lowerChar_def)

text \<open>
  C3. The table loaded from the sample bot.yml holds the trigger \<open>!echo\<close> with the
  template \<open>You said: {args}\<close>. The message \<open>!echo hi\<close> is the trigger plus
  trailing text and the template holds \<open>{args}\<close>, yet the whole lower-cased text is
  looked up, no key is found and no reply is sent. The command matches only the bare
  trigger (in any case), and then the arguments are empty.
\<close>

theorem command_with_args_not_matched:
  "pollChat (steady (batch [says ''UC1'' ''Ann'' ''!echo hi''] None)) exampleConfig
       (loadCommands exampleYaml) 0 (running [''Ann'']) =
     \<lparr>participants = [''Ann''], nextPageToken = Some ''page3'', firstRun = False,
      effects = [ListMessages ''page2'', LogInfo ''Ann: !echo hi'',
        Fetch RelayStep ''https://discord.example/hook'' ''Ann'' None ''!echo hi'',
        SetTimeout 5000]\<rparr> \<and>
   pollChat (steady (batch [says ''UC1'' ''Ann'' ''!Echo''] None)) exampleConfig
       (loadCommands exampleYaml) 0 (running [''Ann'']) =
     \<lparr>participants = [''Ann''], nextPageToken = Some ''page3'', firstRun = False,
      effects = [ListMessages ''page2'', LogInfo ''Ann: !Echo'',
        Fetch RelayStep ''https://discord.example/hook'' ''Ann'' None ''!Echo'',
        Insert CommandStep ''You said: '', SetTimeout 5000]\<rparr>"
  unfolding loadCommands_example
  by (simp add: run_defs fillArgs_def renderReply_def replace_str_def formatUptime_example)

subsection \<open>Moderation\<close>

lemma hasBadWord_iff:
  "hasBadWord cfg message \<longleftrightarrow> (\<exists>w \<in> set (badWords cfg). sublist w (toLowerCase message))"
  by (simp add: hasBadWord_def list_ex_iff str_includes_sublist)

lemma hasBadWord_lower_case:
  "\<forall>w \<in> set (badWords cfg). toLowerCase w = w \<Longrightarrow>
     hasBadWord cfg message \<longleftrightarrow>
       (\<exists>w \<in> set (badWords cfg). sublist (toLowerCase w) (toLowerCase message))"
  by (auto simp: hasBadWord_iff)

lemma moderate_events:
  "moderate env cfg user message b = (c, b') \<Longrightarrow>
     \<exists>es. effects b' = effects b @ Insert ModerationStep (warningText user) # es \<and>
          (\<forall>text. Insert CommandStep text \<notin> set es)"
  unfolding moderate_def
  by (erule andThen_cases)
     (auto simp: sendMessage_def sendToDiscord_def split: option.splits if_splits dest!: call_result)

text \<open>
  A message with a banned word whose relay and welcome steps completed: the next event is
  the warning reply, the moderation notice follows when the warning was sent and the
  webhook is enabled, and there is no command reply.
\<close>

lemma moderated_item:
  assumes bad: "hasBadWord cfg (displayMessage item)"
      and relay: "sendToDiscord env cfg RelayStep (displayName item) (profileImageUrl item)
                    (displayMessage item)
                    (emit (LogInfo (displayName item @ '': '' @ displayMessage item)) b) = (Normal, b1)"
      and greet: "welcomeFirstTime env (displayName item) b1 = (Normal, b2)"
      and run: "processItem env cfg commands startTime item b = (c, b')"
  shows "\<exists>es. effects b' = effects b2 @ Insert ModerationStep (warningText (displayName item)) # es \<and>
              (\<forall>text. Insert CommandStep text \<notin> set es) \<and>
              (c = Normal \<and> discordWebhook cfg = Some hook \<and> enable hook \<and> url hook \<noteq> [] \<longrightarrow>
                 es = [Fetch ModerationStep (url hook) ''Bot'' None
                         (noticeText (displayName item) (displayMessage item))])"
proof -
  have "processItem env cfg commands startTime item b =
          moderate env cfg (displayName item) (displayMessage item) b2"
    using bad relay greet by (simp add: processItem_def Let_def andThen_def)
  with run have m: "moderate env cfg (displayName item) (displayMessage item) b2 = (c, b')" by simp
  then show ?thesis
    unfolding moderate_def
    by (rule andThen_cases)
       (auto simp: sendMessage_def sendToDiscord_def split: option.splits if_splits dest!: call_result)
qed

text \<open>
  C5. The message is lower-cased before the search but the banned words are not: with
  the banned word \<open>Bad\<close> the message \<open>this is Bad\<close> gets no warning and no moderation
  notice, while with the banned word \<open>bad\<close> the same message gets both.
\<close>

theorem mixed_case_banned_word_missed:
  "pollChat (steady (batch [says ''UC1'' ''Ann'' ''this is Bad''] None))
       (exampleConfig\<lparr>badWords := [''Bad'']\<rparr>) exampleCommands 0 (running [''Ann'']) =
     \<lparr>participants = [''Ann''], nextPageToken = Some ''page3'', firstRun = False,
      effects = [ListMessages ''page2'', LogInfo ''Ann: this is Bad'',
        Fetch RelayStep ''https://discord.example/hook'' ''Ann'' None ''this is Bad'',
        SetTimeout 5000]\<rparr> \<and>
   pollChat (steady (batch [says ''UC1'' ''Ann'' ''this is Bad''] None))
       (exampleConfig\<lparr>badWords := [''bad'']\<rparr>) exampleCommands 0 (running [''Ann'']) =
     \<lparr>participants = [''Ann''], nextPageToken = Some ''page3'', firstRun = False,
      effects = [ListMessages ''page2'', LogInfo ''Ann: this is Bad'',
        Fetch RelayStep ''https://discord.example/hook'' ''Ann'' None ''this is Bad'',
        Insert ModerationStep ''@Ann, please avoid bad language!'',
        Fetch ModerationStep ''https://discord.example/hook'' ''Bot'' None
          (''@Ann used a banned word: '' @ [CHR 0x22] @ ''this is Bad'' @ [CHR 0x22]),
        SetTimeout 5000]\<rparr>"
  by (simp add: run_defs)

end
